theory Spec2Isabelle
  imports Complex_Main "HOL-Library.AList" "HOL-Library.Multiset" "HOL-Library.Product_Lexorder"
begin

section \<open>Values, labels and the program state of sketch.js\<close>

text \<open>
  The store, the smoothing window and the import are modelled with the numbers of a stored
  vector as reals; the properties proved of them do not depend on the values.  The
  extraction and the classifier are modelled twice: over exact reals, and over doubles
  with rounding, overflow, infinities and NaN (the definitions whose names end in \<open>_d\<close>).

  A value read from a JSON file is a \<open>json\<close>; an object is the list of its own
  properties in insertion order.  Properties inherited from \<open>Object.prototype\<close> are not
  part of the model.
\<close>

datatype json =
    JNull
  | JBool bool
  | JNum real
  | JStr string
  | JArr "json list"
  | JObj "(string \<times> json) list"

definition LABELS :: "string list" where
  "LABELS = map (\<lambda>c. [c]) ''ABCDEFGHIJKLMNOPQRSTUVWXYZ''"

definition NONE_LABEL :: string where
  "NONE_LABEL = ''NONE''"

definition ALL_LABELS :: "string list" where
  "ALL_LABELS = LABELS @ [NONE_LABEL]"

definition SMOOTH_N :: nat where "SMOOTH_N = 12"
definition STABLE_MIN :: nat where "STABLE_MIN = 9"
definition K :: nat where "K = 7"
definition MIN_CONF :: real where "MIN_CONF = 62 / 100"
definition MIN_MARGIN :: real where "MIN_MARGIN = 12 / 100"
definition EPS :: real where "EPS = 1 / 1000000"
definition RECORD_EVERY_MS :: real where "RECORD_EVERY_MS = 140"
definition ADD_DEBOUNCE_MS :: real where "ADD_DEBOUNCE_MS = 180"

text \<open>One keypoint of a detected hand; \<open>kz\<close> may be missing (\<open>k.z ?? 0\<close>).\<close>

record keypoint =
  kx :: real
  ky :: real
  kz :: "real option"

text \<open>A detected hand; \<open>keypoints = None\<close> is a hand for which \<open>hand?.keypoints\<close> is falsy.\<close>

record hand =
  keypoints :: "keypoint list option"

text \<open>
  The errors thrown inside \<open>handleImport\<close>: the three \<open>new Error(...)\<close> of the source,
  and an exception of a built-in with its message.
\<close>

datatype import_error =
    Err_MalformedDataURL
  | Err_Unreadable
  | Err_MissingExamples
  | Err_Builtin string

text \<open>The messages written to \<open>statusMsg\<close>, one constructor per message of the source.\<close>

datatype status =
    Msg_Loading
  | Msg_NoHand
  | Msg_Added string nat
  | Msg_NothingToUndo
  | Msg_Undid json
  | Msg_UndoNothing
  | Msg_Cleared
  | Msg_ImportCancelled
  | Msg_Imported nat
  | Msg_ImportFailed import_error

text \<open>The payload that \<open>saveDataset\<close> hands to \<open>localStorage.setItem\<close>.\<close>

record snapshot =
  sv_version :: nat
  sv_savedAt :: string
  sv_examples :: "string \<rightharpoonup> json list"
  sv_addHistory :: "json list"
  sv_feature :: string
  sv_k :: nat

text \<open>
  The module-level variables of the sketch.  \<open>storage\<close> is the item kept under
  \<open>STORAGE_KEY\<close> in \<open>localStorage\<close> (\<open>None\<close> when it is absent).
\<close>

record state =
  hands :: "hand list"
  examples :: "string \<rightharpoonup> json list"
  addHistory :: "json list"
  isPredicting :: bool
  lastLabel :: "string option"
  lastConf :: real
  smoothQueue :: "string list"
  statusMsg :: status
  recordMode :: bool
  recordLabel :: "string option"
  lastRecordAt :: real
  lastAddAt :: real
  storage :: "snapshot option"

text \<open>
  A double: a finite value (\<open>Fin 0\<close> is the positive zero), the negative zero, the two
  infinities, or NaN.
\<close>

datatype num = Fin real | NZero | PInf | NInf | NaN

text \<open>
  What the host provides: the clock \<open>millis()\<close>, the date string of
  \<open>new Date().toISOString()\<close>, and the built-ins whose results the source only passes on.
  A built-in that throws returns \<open>Inl\<close> with the message of the exception;
  \<open>setItem_throws\<close> is the message with which \<open>localStorage.setItem\<close> throws on a
  payload, if it does.  \<open>fround\<close> rounds a real to a double (the rounding of every
  arithmetic operation on doubles), and \<open>Math_atan2\<close>, \<open>Math_cos\<close> and \<open>Math_sin\<close> are
  the library functions on doubles.
\<close>

record host =
  millis :: real
  isoDate :: string
  numberToString :: "real \<Rightarrow> string"
  JSON_parse :: "string \<Rightarrow> string + json"
  atob :: "string \<Rightarrow> string + string"
  decodeURIComponent :: "string \<Rightarrow> string + string"
  setItem_throws :: "snapshot \<Rightarrow> string option"
  fround :: "real \<Rightarrow> real"
  Math_atan2 :: "num \<Rightarrow> num \<Rightarrow> num"
  Math_cos :: "num \<Rightarrow> num"
  Math_sin :: "num \<Rightarrow> num"

datatype error = TypeError

section \<open>Feature extraction\<close>

text \<open>\<open>Math.atan2\<close> on reals (signed zeros are not distinguished).\<close>

definition atan2 :: "real \<Rightarrow> real \<Rightarrow> real" where
  "atan2 y x =
     (if 0 < x then arctan (y / x)
      else if x < 0 \<and> 0 \<le> y then arctan (y / x) + pi
      else if x < 0 \<and> y < 0 then arctan (y / x) - pi
      else if 0 < y then pi / 2
      else if y < 0 then - (pi / 2)
      else 0)"

definition getLandmarks21 :: "keypoint list \<Rightarrow> (real \<times> real \<times> real) list" where
  "getLandmarks21 kps =
     map (\<lambda>k. (kx k, ky k, (case kz k of None \<Rightarrow> 0 | Some z \<Rightarrow> z))) kps"

text \<open>The body of the loop \<open>for (let i = 0; i < 21; i++)\<close>: two values are pushed.\<close>

definition feats_push ::
  "(real \<times> real \<times> real) list \<Rightarrow> real \<Rightarrow> real \<Rightarrow> real \<Rightarrow> real \<Rightarrow> real \<Rightarrow>
   real list \<Rightarrow> nat \<Rightarrow> real list" where
  "feats_push lm wx wy scale cosR sinR feats i =
     (let x = (fst (lm ! i) - wx) / scale;
          y = (fst (snd (lm ! i)) - wy) / scale;
          xr = x * cosR - y * sinR;
          yr = x * sinR + y * cosR
      in feats @ [xr, yr])"

text \<open>\<open>Math.sqrt(dx * dx + dy * dy) || 1\<close>.\<close>

definition hand_scale :: "real \<Rightarrow> real \<Rightarrow> real" where
  "hand_scale dx dy = (let r = sqrt (dx * dx + dy * dy) in if r = 0 then 1 else r)"

definition getHandFeatures :: "hand list \<Rightarrow> real list option" where
  "getHandFeatures hs =
     (case hs of
        [] \<Rightarrow> None
      | h # _ \<Rightarrow>
          (case keypoints h of
             None \<Rightarrow> None
           | Some kps \<Rightarrow>
               if length kps \<noteq> 21 then None
               else
                 let lm = getLandmarks21 kps;
                     wrist = lm ! 0;
                     midMcp = lm ! 9;
                     wx = fst wrist;
                     wy = fst (snd wrist);
                     dx = fst midMcp - wx;
                     dy = fst (snd midMcp) - wy;
                     scale = hand_scale dx dy;
                     ang = atan2 dy dx;
                     rot = (- pi / 2) - ang;
                     cosR = cos rot;
                     sinR = sin rot
                 in Some (foldl (feats_push lm wx wy scale cosR sinR) [] [0..<21])))"

section \<open>The example store\<close>

text \<open>
  The key under which \<open>examples[label]\<close> looks a value up (JavaScript's property-key
  conversion of a JSON value).
\<close>

fun propertyKey :: "host \<Rightarrow> json \<Rightarrow> string"
  and elementKey :: "host \<Rightarrow> json \<Rightarrow> string"
  and joinKeys :: "host \<Rightarrow> json list \<Rightarrow> string" where
  "propertyKey e (JStr s) = s"
| "propertyKey e JNull = ''null''"
| "propertyKey e (JBool b) = (if b then ''true'' else ''false'')"
| "propertyKey e (JNum r) = numberToString e r"
| "propertyKey e (JObj ps) = ''[object Object]''"
| "propertyKey e (JArr xs) = joinKeys e xs"
| "elementKey e JNull = []"
| "elementKey e (JStr s) = s"
| "elementKey e (JBool b) = (if b then ''true'' else ''false'')"
| "elementKey e (JNum r) = numberToString e r"
| "elementKey e (JObj ps) = ''[object Object]''"
| "elementKey e (JArr xs) = joinKeys e xs"
| "joinKeys e [] = []"
| "joinKeys e [x] = elementKey e x"
| "joinKeys e (x # y # ys) = elementKey e x @ '','' @ joinKeys e (y # ys)"

text \<open>A stored feature vector is the array of its numbers.\<close>

definition vec :: "real list \<Rightarrow> json" where
  "vec feats = JArr (map JNum feats)"

text \<open>
  The payload of \<open>saveDataset\<close>, and the state after a write of it that succeeds.
  \<open>addExample\<close> and \<open>undoLast\<close> call \<open>saveDataset\<close> outside any \<open>try\<close>; they are modelled
  for the runs in which the write succeeds.  \<open>handleImport\<close> calls it inside its \<open>try\<close>,
  and there the model follows both outcomes of the write.
\<close>

definition snapshot_of :: "host \<Rightarrow> state \<Rightarrow> snapshot" where
  "snapshot_of e s =
     \<lparr>sv_version = 2, sv_savedAt = isoDate e, sv_examples = examples s,
      sv_addHistory = addHistory s, sv_feature = ''xy_rot_norm'', sv_k = K\<rparr>"

definition saveDataset :: "host \<Rightarrow> state \<Rightarrow> state" where
  "saveDataset e s = s\<lparr>storage := Some (snapshot_of e s)\<rparr>"

text \<open>
  \<open>addExample(label, opts)\<close>: the returned pair is the result (an uncaught exception or
  the boolean) and the state the call leaves behind.
\<close>

definition addExample :: "string \<Rightarrow> bool \<Rightarrow> host \<Rightarrow> state \<Rightarrow> (error + bool) \<times> state" where
  "addExample label silent e s =
     (let now = millis e in
      if \<not> silent \<and> now - lastAddAt s < ADD_DEBOUNCE_MS then (Inr False, s)
      else
        let s1 = s\<lparr>lastAddAt := now\<rparr> in
        (case getHandFeatures (hands s1) of
           None \<Rightarrow> (Inr False, if \<not> silent then s1\<lparr>statusMsg := Msg_NoHand\<rparr> else s1)
         | Some feats \<Rightarrow>
             (case examples s1 label of
                None \<Rightarrow> (Inl TypeError, s1)
              | Some arr \<Rightarrow>
                  let s2 = s1\<lparr>examples := (examples s1)(label \<mapsto> arr @ [vec feats])\<rparr>;
                      s3 = s2\<lparr>addHistory := addHistory s2 @ [JStr label]\<rparr>;
                      s4 = saveDataset e s3
                  in (Inr True,
                      if \<not> silent
                      then s4\<lparr>statusMsg := Msg_Added label (length (arr @ [vec feats]))\<rparr>
                      else s4))))"

text \<open>\<open>undoLast()\<close>; reading \<open>.length\<close> of an undefined \<open>examples[label]\<close> throws.\<close>

definition undoLast :: "host \<Rightarrow> state \<Rightarrow> (error + unit) \<times> state" where
  "undoLast e s =
     (if length (addHistory s) = 0 then (Inr (), s\<lparr>statusMsg := Msg_NothingToUndo\<rparr>)
      else
        let label = last (addHistory s);
            s1 = s\<lparr>addHistory := butlast (addHistory s)\<rparr>
        in (case examples s1 (propertyKey e label) of
              None \<Rightarrow> (Inl TypeError, s1)
            | Some arr \<Rightarrow>
                if length arr > 0 then
                  let s2 = s1\<lparr>examples := (examples s1)(propertyKey e label \<mapsto> butlast arr)\<rparr>;
                      s3 = saveDataset e s2
                  in (Inr (), s3\<lparr>statusMsg := Msg_Undid label\<rparr>)
                else
                  (Inr (), (saveDataset e s1)\<lparr>statusMsg := Msg_UndoNothing\<rparr>)))"

definition clearAll :: "state \<Rightarrow> state" where
  "clearAll s =
     s\<lparr>examples := foldl (\<lambda>m l. m(l \<mapsto> [])) (examples s) ALL_LABELS,
       addHistory := [],
       smoothQueue := [],
       lastLabel := None,
       lastConf := 0,
       recordLabel := None,
       recordMode := False,
       storage := None,
       statusMsg := Msg_Cleared\<rparr>"

definition totalExamples :: "state \<Rightarrow> nat" where
  "totalExamples s =
     foldl (\<lambda>sum l. sum + (case examples s l of None \<Rightarrow> 0 | Some arr \<Rightarrow> length arr)) 0 ALL_LABELS"


text \<open>\<open>gotHands(results)\<close>: \<open>hands = results || []\<close>.\<close>

definition gotHands :: "hand list option \<Rightarrow> state \<Rightarrow> state" where
  "gotHands results s = s\<lparr>hands := (case results of None \<Rightarrow> [] | Some hs \<Rightarrow> hs)\<rparr>"

text \<open>The values the module-level declarations give before \<open>setup\<close> runs.\<close>

definition init_state :: state where
  "init_state =
     \<lparr>hands = [],
      examples = foldl (\<lambda>m l. m(l \<mapsto> [])) Map.empty ALL_LABELS,
      addHistory = [],
      isPredicting = True,
      lastLabel = None,
      lastConf = 0,
      smoothQueue = [],
      statusMsg = Msg_Loading,
      recordMode = False,
      recordLabel = None,
      lastRecordAt = 0,
      lastAddAt = 0,
      storage = None\<rparr>"

section \<open>The kNN classifier\<close>

text \<open>
  A stored entry is used as a vector of numbers.  \<open>as_vector\<close> is \<open>None\<close> for an entry
  that is not an array of numbers, and \<open>l2Distance\<close> is \<open>None\<close> where the source reads
  \<open>b[i]\<close> past the end of \<open>b\<close> (the value is then not a number).
\<close>

fun as_number :: "json \<Rightarrow> real option" where
  "as_number (JNum r) = Some r"
| "as_number _ = None"

fun as_vector :: "json \<Rightarrow> real list option" where
  "as_vector (JArr xs) = those (map as_number xs)"
| "as_vector _ = None"

definition l2Distance :: "real list \<Rightarrow> real list \<Rightarrow> real option" where
  "l2Distance a b =
     (if length b < length a then None
      else Some (sqrt (foldl (\<lambda>s i. s + (a ! i - b ! i) * (a ! i - b ! i)) 0 [0..<length a])))"

definition distance :: "real list \<Rightarrow> json \<Rightarrow> real option" where
  "distance feats b = (case as_vector b of None \<Rightarrow> None | Some v \<Rightarrow> l2Distance feats v)"

text \<open>
  The nested loops that fill \<open>neighbors\<close>: labels in the order of \<open>ALL_LABELS\<close>, the
  entries of a label in stored order.
\<close>

definition neighbors_of :: "state \<Rightarrow> real list \<Rightarrow> (string \<times> real option) list" where
  "neighbors_of s feats =
     concat (map (\<lambda>label.
        (case examples s label of
           None \<Rightarrow> []
         | Some arr \<Rightarrow> map (\<lambda>b. (label, distance feats b)) arr)) ALL_LABELS)"

text \<open>\<open>scores[label] || 0\<close> and \<open>counts[l] || 0\<close>.\<close>

definition or0 :: "'a::zero option \<Rightarrow> 'a" where
  "or0 v = (case v of None \<Rightarrow> 0 | Some x \<Rightarrow> if x = 0 then 0 else x)"

text \<open>
  \<open>scores\<close> is an object whose keys are labels: the list of its properties in insertion
  order.
\<close>

definition add_score :: "(string \<times> real) list \<Rightarrow> string \<times> real \<Rightarrow> (string \<times> real) list" where
  "add_score scores n =
     (let label = fst n; d = snd n; w = 1 / (d + EPS)
      in AList.update label (or0 (map_of scores label) + w) scores)"

text \<open>
  The loop over \<open>Object.keys(scores)\<close>.  \<open>best\<close> and \<open>second\<close> pair a label with its
  score; \<open>None\<close> is the initial \<open>null\<close> with score \<open>-Infinity\<close>.
\<close>

fun exceeds :: "real \<Rightarrow> (string \<times> real) option \<Rightarrow> bool" where
  "exceeds s None = True"
| "exceeds s (Some (l, b)) = (s > b)"

definition best_step ::
  "(string \<times> real) option \<times> (string \<times> real) option \<Rightarrow> string \<times> real \<Rightarrow>
   (string \<times> real) option \<times> (string \<times> real) option" where
  "best_step bs entry =
     (let best = fst bs; second = snd bs; s = snd entry in
      if exceeds s best then (Some entry, best)
      else if exceeds s second then (best, Some entry)
      else (best, second))"

text \<open>The values of the properties of a returned result object.\<close>

datatype rval =
    RNum real
  | RLabel "string option"
  | RScores "(string \<times> real) list"

text \<open>The object literal \<open>{ label, conf, best, second, scores }\<close>.\<close>

definition knn_object ::
  "string option \<Rightarrow> real \<Rightarrow> string option \<Rightarrow> string option \<Rightarrow> (string \<times> real) list \<Rightarrow>
   (string \<times> rval) list" where
  "knn_object label conf best second scores =
     [(''label'', RLabel label), (''conf'', RNum conf), (''best'', RLabel best),
      (''second'', RLabel second), (''scores'', RScores scores)]"

text \<open>
  What \<open>classifyKNN\<close> returns: \<open>null\<close>, a result object, or \<open>Knn_outside\<close> when some stored
  entry has no distance in the model.
\<close>

datatype knn =
    Knn_null
  | Knn_result "(string \<times> rval) list"
  | Knn_outside

definition topK_of :: "(string \<times> real) list \<Rightarrow> (string \<times> real) list" where
  "topK_of neighbors =
     (let sorted = sort_key snd neighbors;
          k = min K (length sorted)
      in take k sorted)"

definition scores_of :: "(string \<times> real) list \<Rightarrow> (string \<times> real) list" where
  "scores_of topK = foldl add_score [] topK"

text \<open>
  The local variables of \<open>classifyKNN\<close> after the loop, as functions of \<open>scores\<close>.
  With no key in \<open>scores\<close> the total is 0 and \<open>conf\<close> is 0.
\<close>

definition best_second ::
  "(string \<times> real) list \<Rightarrow> (string \<times> real) option \<times> (string \<times> real) option" where
  "best_second scores = foldl best_step (None, None) scores"

definition bestLabel_of :: "(string \<times> real) list \<Rightarrow> string option" where
  "bestLabel_of scores = map_option fst (fst (best_second scores))"

definition secondLabel_of :: "(string \<times> real) list \<Rightarrow> string option" where
  "secondLabel_of scores = map_option fst (snd (best_second scores))"

definition secondScore_of :: "(string \<times> real) list \<Rightarrow> real" where
  "secondScore_of scores = (case snd (best_second scores) of None \<Rightarrow> 0 | Some p \<Rightarrow> snd p)"

definition total_of :: "(string \<times> real) list \<Rightarrow> real" where
  "total_of scores = foldl (+) 0 (map snd scores)"

definition conf_of :: "(string \<times> real) list \<Rightarrow> real" where
  "conf_of scores =
     (case fst (best_second scores) of
        None \<Rightarrow> 0
      | Some p \<Rightarrow> if total_of scores > 0 then snd p / total_of scores else 0)"

definition secondConf_of :: "(string \<times> real) list \<Rightarrow> real" where
  "secondConf_of scores =
     (if total_of scores > 0 then secondScore_of scores / total_of scores else 0)"

definition margin_of :: "(string \<times> real) list \<Rightarrow> real" where
  "margin_of scores = conf_of scores - secondConf_of scores"

text \<open>The three \<open>return\<close> statements.\<close>

definition gate :: "(string \<times> real) list \<Rightarrow> (string \<times> rval) list" where
  "gate scores =
     (let bestLabel = bestLabel_of scores;
          secondLabel = secondLabel_of scores;
          conf = conf_of scores;
          margin = margin_of scores
      in if bestLabel = Some NONE_LABEL
         then knn_object (Some NONE_LABEL) conf bestLabel secondLabel scores
         else if conf < MIN_CONF \<or> margin < MIN_MARGIN
         then knn_object (Some NONE_LABEL) conf bestLabel secondLabel scores
         else knn_object bestLabel conf bestLabel secondLabel scores)"

definition classifyKNN :: "state \<Rightarrow> real list \<Rightarrow> knn" where
  "classifyKNN s feats =
     (let raw = neighbors_of s feats in
      if length raw = 0 then Knn_null
      else
        (case those (map (\<lambda>n. map_option (Pair (fst n)) (snd n)) raw) of
           None \<Rightarrow> Knn_outside
         | Some neighbors \<Rightarrow> Knn_result (gate (scores_of (topK_of neighbors)))))"

section \<open>Smoothing\<close>

record smoothed =
  sm_label :: "string option"
  sm_conf :: real
  sm_stable :: bool

definition add_count :: "(string \<times> nat) list \<Rightarrow> string \<Rightarrow> (string \<times> nat) list" where
  "add_count counts l = AList.update l (or0 (map_of counts l) + 1) counts"

definition count_step :: "string option \<times> nat \<Rightarrow> string \<times> nat \<Rightarrow> string option \<times> nat" where
  "count_step b entry =
     (let bestCount = snd b; l = fst entry; c = snd entry
      in if c > bestCount then (Some l, c) else b)"

text \<open>\<open>!lastLabel\<close> holds for \<open>null\<close> and for the empty string.\<close>

definition falsy_label :: "string option \<Rightarrow> bool" where
  "falsy_label l = (case l of None \<Rightarrow> True | Some t \<Rightarrow> t = [])"

definition getSmoothedLabel :: "state \<Rightarrow> smoothed" where
  "getSmoothedLabel s =
     (if falsy_label (lastLabel s) then \<lparr>sm_label = None, sm_conf = 0, sm_stable = False\<rparr>
      else
        let counts = foldl add_count [] (smoothQueue s);
            b = foldl count_step (None, 0) counts;
            best = fst b;
            bestCount = snd b;
            stable = (bestCount \<ge> STABLE_MIN \<and> lastConf s \<ge> MIN_CONF)
        in \<lparr>sm_label = best, sm_conf = lastConf s, sm_stable = stable\<rparr>)"

section \<open>Import\<close>

text \<open>The file object that p5 hands to \<open>handleImport\<close>; \<open>data = None\<close> is a missing \<open>data\<close>.\<close>

datatype import_file = ImportFile (data: "json option")

text \<open>\<open>Import failed \<emdash> ${e.message || "invalid JSON"}\<close>.\<close>

definition import_failed :: "import_error \<Rightarrow> status" where
  "import_failed err =
     Msg_ImportFailed
       (case err of
          Err_Builtin m \<Rightarrow> Err_Builtin (if m = [] then ''invalid JSON'' else m)
        | _ \<Rightarrow> err)"

text \<open>
  String helpers of the source: \<open>trim\<close>, \<open>indexOf\<close>, \<open>includes\<close>, \<open>startsWith\<close>.  A
  string is the list of its code units, all below 256; \<open>is_space\<close> holds for the white
  space and line terminators among them.
\<close>

definition is_space :: "char \<Rightarrow> bool" where
  "is_space c =
     (c \<in> set [CHR 0x09, CHR 0x0A, CHR 0x0B, CHR 0x0C, CHR 0x0D, CHR 0x20, CHR 0xA0])"

definition trim :: "string \<Rightarrow> string" where
  "trim s = rev (dropWhile is_space (rev (dropWhile is_space s)))"

fun indexOf :: "string \<Rightarrow> char \<Rightarrow> nat option" where
  "indexOf [] c = None"
| "indexOf (x # xs) c = (if x = c then Some 0 else map_option Suc (indexOf xs c))"

fun str_includes :: "string \<Rightarrow> string \<Rightarrow> bool" where
  "str_includes [] sub = (sub = [])"
| "str_includes (x # xs) sub = (take (length sub) (x # xs) = sub \<or> str_includes xs sub)"

definition startsWith :: "string \<Rightarrow> string \<Rightarrow> bool" where
  "startsWith s p = (take (length p) s = p)"

text \<open>Truthiness of a JSON value, and reading a property of it.\<close>

fun truthy :: "json \<Rightarrow> bool" where
  "truthy JNull = False"
| "truthy (JBool b) = b"
| "truthy (JNum r) = (r \<noteq> 0)"
| "truthy (JStr s) = (s \<noteq> [])"
| "truthy (JArr xs) = True"
| "truthy (JObj ps) = True"

fun get_prop :: "json \<Rightarrow> string \<Rightarrow> json option" where
  "get_prop (JObj ps) k = map_of ps k"
| "get_prop _ k = None"

text \<open>\<open>Array.isArray(v) ? v : []\<close> for a property value that may be undefined.\<close>

fun array_or_empty :: "json option \<Rightarrow> json list" where
  "array_or_empty (Some (JArr xs)) = xs"
| "array_or_empty _ = []"

definition parseMaybeJSON :: "host \<Rightarrow> import_file \<Rightarrow> import_error + json" where
  "parseMaybeJSON e f =
     (case data f of
        Some (JObj ps) \<Rightarrow> Inr (JObj ps)
      | Some (JArr xs) \<Rightarrow> Inr (JArr xs)
      | Some (JStr str) \<Rightarrow>
          (let s = trim str in
           if startsWith s ''data:'' then
             (case indexOf s CHR '','' of
                None \<Rightarrow> Inl Err_MalformedDataURL
              | Some comma \<Rightarrow>
                  let meta = take comma s;
                      b64 = drop (comma + 1) s
                  in if str_includes meta '';base64'' then
                       (case atob e b64 of
                          Inl m \<Rightarrow> Inl (Err_Builtin m)
                        | Inr txt \<Rightarrow>
                            (case JSON_parse e txt of
                               Inl m \<Rightarrow> Inl (Err_Builtin m) | Inr v \<Rightarrow> Inr v))
                     else
                       (case decodeURIComponent e b64 of
                          Inl m \<Rightarrow> Inl (Err_Builtin m)
                        | Inr txt \<Rightarrow>
                            (case JSON_parse e txt of
                               Inl m \<Rightarrow> Inl (Err_Builtin m) | Inr v \<Rightarrow> Inr v)))
           else (case JSON_parse e s of Inl m \<Rightarrow> Inl (Err_Builtin m) | Inr v \<Rightarrow> Inr v))
      | _ \<Rightarrow> Inl Err_Unreadable)"

text \<open>
  The parts of \<open>handleImport\<close> that run once the payload has its \<open>examples\<close>.  First
  the store is replaced.  Then \<open>saveDataset\<close> writes it: if the write throws, the \<open>catch\<close>
  reports the failure and nothing else changes; otherwise the smoothing and recording
  variables are reset and the success is reported.
\<close>

definition replace_store :: "json \<Rightarrow> state \<Rightarrow> state" where
  "replace_store payload s =
     (let ex = get_prop payload ''examples'';
          s1 = s\<lparr>examples :=
                   foldl (\<lambda>m l. m(l \<mapsto> array_or_empty (case ex of None \<Rightarrow> None
                                                              | Some x \<Rightarrow> get_prop x l)))
                     (examples s) ALL_LABELS\<rparr>
      in s1\<lparr>addHistory := array_or_empty (get_prop payload ''addHistory'')\<rparr>)"

definition install_payload :: "host \<Rightarrow> json \<Rightarrow> state \<Rightarrow> state" where
  "install_payload e payload s =
     (let s2 = replace_store payload s in
      case setItem_throws e (snapshot_of e s2) of
        Some m \<Rightarrow> s2\<lparr>statusMsg := import_failed (Err_Builtin m)\<rparr>
      | None \<Rightarrow>
          let s3 = saveDataset e s2;
              s4 = s3\<lparr>smoothQueue := [], lastLabel := None, lastConf := 0,
                      recordLabel := None, recordMode := False\<rparr>
          in s4\<lparr>statusMsg := Msg_Imported (totalExamples s4)\<rparr>)"

definition handleImport :: "host \<Rightarrow> import_file option \<Rightarrow> state \<Rightarrow> state" where
  "handleImport e fl s =
     (case fl of
        None \<Rightarrow> s\<lparr>statusMsg := Msg_ImportCancelled\<rparr>
      | Some f \<Rightarrow>
          (case parseMaybeJSON e f of
             Inl err \<Rightarrow> s\<lparr>statusMsg := import_failed err\<rparr>
           | Inr payload \<Rightarrow>
               if \<not> truthy payload
                  \<or> \<not> (case get_prop payload ''examples'' of None \<Rightarrow> False | Some x \<Rightarrow> truthy x)
               then s\<lparr>statusMsg := import_failed Err_MissingExamples\<rparr>
               else install_payload e payload s))"

section \<open>Arithmetic on doubles\<close>

text \<open>
  The value of a finite double, the test \<open>isFinite\<close>, the sign bit, and the values that
  are falsy in \<open>x || 1\<close>.
\<close>

fun val :: "num \<Rightarrow> real" where
  "val (Fin r) = r"
| "val NZero = 0"
| "val PInf = 0"
| "val NInf = 0"
| "val NaN = 0"

fun isFinite :: "num \<Rightarrow> bool" where
  "isFinite (Fin r) = True"
| "isFinite NZero = True"
| "isFinite PInf = False"
| "isFinite NInf = False"
| "isFinite NaN = False"

fun negative :: "num \<Rightarrow> bool" where
  "negative (Fin r) = (r < 0)"
| "negative NZero = True"
| "negative PInf = False"
| "negative NInf = True"
| "negative NaN = False"

definition is_inf :: "num \<Rightarrow> bool" where
  "is_inf a = (a = PInf \<or> a = NInf)"

definition is_zero :: "num \<Rightarrow> bool" where
  "is_zero a = (a = Fin 0 \<or> a = NZero)"

definition falsy_num :: "num \<Rightarrow> bool" where
  "falsy_num a = (a = NaN \<or> is_zero a)"

definition signed_inf :: "bool \<Rightarrow> num" where
  "signed_inf neg = (if neg then NInf else PInf)"

definition signed_zero :: "bool \<Rightarrow> num" where
  "signed_zero neg = (if neg then NZero else Fin 0)"

text \<open>
  The double that an exact result \<open>x\<close> becomes under rounding to nearest: an infinity from
  \<open>2^1024 - 2^970\<close> on, otherwise the rounded value; a zero result takes the sign of \<open>x\<close>,
  or the sign \<open>zneg\<close> that the operation prescribes when \<open>x\<close> is itself zero.
\<close>

definition OVERFLOW :: real where
  "OVERFLOW = 2 ^ 1024 - 2 ^ 970"

definition round_with :: "(real \<Rightarrow> real) \<Rightarrow> real \<Rightarrow> bool \<Rightarrow> num" where
  "round_with rnd x zneg =
     (if OVERFLOW \<le> \<bar>x\<bar> then signed_inf (x < 0)
      else if rnd x = 0 then signed_zero (if x = 0 then zneg else x < 0)
      else Fin (rnd x))"

definition round_to :: "host \<Rightarrow> real \<Rightarrow> bool \<Rightarrow> num" where
  "round_to e x zneg = round_with (fround e) x zneg"

fun fneg :: "num \<Rightarrow> num" where
  "fneg (Fin r) = (if r = 0 then NZero else Fin (- r))"
| "fneg NZero = Fin 0"
| "fneg PInf = NInf"
| "fneg NInf = PInf"
| "fneg NaN = NaN"

definition fadd :: "host \<Rightarrow> num \<Rightarrow> num \<Rightarrow> num" where
  "fadd e a b =
     (if a = NaN \<or> b = NaN then NaN
      else if (a = PInf \<and> b = NInf) \<or> (a = NInf \<and> b = PInf) then NaN
      else if a = PInf \<or> b = PInf then PInf
      else if a = NInf \<or> b = NInf then NInf
      else round_to e (val a + val b) (negative a \<and> negative b))"

definition fsub :: "host \<Rightarrow> num \<Rightarrow> num \<Rightarrow> num" where
  "fsub e a b = fadd e a (fneg b)"

definition fmul :: "host \<Rightarrow> num \<Rightarrow> num \<Rightarrow> num" where
  "fmul e a b =
     (if a = NaN \<or> b = NaN then NaN
      else if is_inf a \<or> is_inf b
      then (if is_zero a \<or> is_zero b then NaN else signed_inf (negative a \<noteq> negative b))
      else round_to e (val a * val b) (negative a \<noteq> negative b))"

definition fdiv :: "host \<Rightarrow> num \<Rightarrow> num \<Rightarrow> num" where
  "fdiv e a b =
     (if a = NaN \<or> b = NaN then NaN
      else if is_inf a
      then (if is_inf b then NaN else signed_inf (negative a \<noteq> negative b))
      else if is_inf b then signed_zero (negative a \<noteq> negative b)
      else if is_zero b
      then (if is_zero a then NaN else signed_inf (negative a \<noteq> negative b))
      else round_to e (val a / val b) (negative a \<noteq> negative b))"

text \<open>\<open>Math.sqrt\<close>, correctly rounded.\<close>

fun fsqrt :: "host \<Rightarrow> num \<Rightarrow> num" where
  "fsqrt e (Fin r) = (if r < 0 then NaN else round_to e (sqrt r) False)"
| "fsqrt e NZero = NZero"
| "fsqrt e PInf = PInf"
| "fsqrt e NInf = NaN"
| "fsqrt e NaN = NaN"

text \<open>\<open>a < b\<close> on doubles: false whenever a NaN is involved.\<close>

fun flt :: "num \<Rightarrow> num \<Rightarrow> bool" where
  "flt NaN b = False"
| "flt a NaN = False"
| "flt PInf b = False"
| "flt a NInf = False"
| "flt NInf b = True"
| "flt a PInf = True"
| "flt a b = (val a < val b)"

text \<open>
  Rounding to the nearest double, ties to even, for a real below the overflow threshold:
  \<open>ulp x\<close> is the spacing of the doubles around \<open>x\<close>.
\<close>

definition ulp :: "real \<Rightarrow> real" where
  "ulp x = 2 powr (real_of_int (max \<lfloor>log 2 \<bar>x\<bar>\<rfloor> (- 1022)) - 52)"

definition nearest_even :: "real \<Rightarrow> int" where
  "nearest_even y =
     (let f = \<lfloor>y\<rfloor> in
      if y - of_int f < 1 / 2 then f
      else if 1 / 2 < y - of_int f then f + 1
      else if even f then f else f + 1)"

definition ieee_round :: "real \<Rightarrow> real" where
  "ieee_round x = (if x = 0 then 0 else of_int (nearest_even (x / ulp x)) * ulp x)"

text \<open>
  Sample library functions: the exact value, rounded, for finite arguments, with the
  results that \<open>Math.atan2\<close>, \<open>Math.cos\<close> and \<open>Math.sin\<close> prescribe for zeros, infinities
  and NaN.
\<close>

definition sample_cos :: "num \<Rightarrow> num" where
  "sample_cos x = (if isFinite x then round_with ieee_round (cos (val x)) False else NaN)"

definition sample_sin :: "num \<Rightarrow> num" where
  "sample_sin x =
     (if isFinite x then round_with ieee_round (sin (val x)) (negative x) else NaN)"

definition sample_atan2 :: "num \<Rightarrow> num \<Rightarrow> num" where
  "sample_atan2 y x =
     (if y = NaN \<or> x = NaN then NaN
      else if is_inf y
      then round_with ieee_round
             ((if negative y then - 1 else 1)
              * (if x = PInf then pi / 4 else if x = NInf then 3 * pi / 4 else pi / 2)) False
      else if x = PInf then signed_zero (negative y)
      else if x = NInf then round_with ieee_round (if negative y then - pi else pi) False
      else if is_zero y
      then (if negative x
            then round_with ieee_round (if negative y then - pi else pi) False
            else signed_zero (negative y))
      else round_with ieee_round (atan2 (val y) (val x)) (negative y))"

section \<open>Feature extraction on doubles\<close>

text \<open>
  A keypoint and a hand as the detector delivers them, with doubles for coordinates, and
  \<open>getHandFeatures\<close> with every operation of the source in double arithmetic.
\<close>

record dkeypoint =
  px :: num
  py :: num
  pz :: "num option"

record dhand =
  dkeypoints :: "dkeypoint list option"

definition getLandmarks21_d :: "dkeypoint list \<Rightarrow> (num \<times> num \<times> num) list" where
  "getLandmarks21_d kps =
     map (\<lambda>k. (px k, py k, (case pz k of None \<Rightarrow> Fin 0 | Some z \<Rightarrow> z))) kps"

definition feats_push_d ::
  "host \<Rightarrow> (num \<times> num \<times> num) list \<Rightarrow> num \<Rightarrow> num \<Rightarrow> num \<Rightarrow> num \<Rightarrow> num \<Rightarrow>
   num list \<Rightarrow> nat \<Rightarrow> num list" where
  "feats_push_d e lm wx wy scale cosR sinR feats i =
     (let x = fdiv e (fsub e (fst (lm ! i)) wx) scale;
          y = fdiv e (fsub e (fst (snd (lm ! i))) wy) scale;
          xr = fsub e (fmul e x cosR) (fmul e y sinR);
          yr = fadd e (fmul e x sinR) (fmul e y cosR)
      in feats @ [xr, yr])"

definition hand_scale_d :: "host \<Rightarrow> num \<Rightarrow> num \<Rightarrow> num" where
  "hand_scale_d e dx dy =
     (let r = fsqrt e (fadd e (fmul e dx dx) (fmul e dy dy))
      in if falsy_num r then Fin 1 else r)"

text \<open>\<open>Math.PI\<close> is the double nearest to \<open>\<pi>\<close>.\<close>

definition Math_PI :: "host \<Rightarrow> num" where
  "Math_PI e = round_to e pi False"

definition getHandFeatures_d :: "host \<Rightarrow> dhand list \<Rightarrow> num list option" where
  "getHandFeatures_d e hs =
     (case hs of
        [] \<Rightarrow> None
      | h # _ \<Rightarrow>
          (case dkeypoints h of
             None \<Rightarrow> None
           | Some kps \<Rightarrow>
               if length kps \<noteq> 21 then None
               else
                 let lm = getLandmarks21_d kps;
                     wrist = lm ! 0;
                     midMcp = lm ! 9;
                     wx = fst wrist;
                     wy = fst (snd wrist);
                     dx = fsub e (fst midMcp) wx;
                     dy = fsub e (fst (snd midMcp)) wy;
                     scale = hand_scale_d e dx dy;
                     ang = Math_atan2 e dy dx;
                     rot = fsub e (fdiv e (fneg (Math_PI e)) (Fin 2)) ang;
                     cosR = Math_cos e rot;
                     sinR = Math_sin e rot
                 in Some (foldl (feats_push_d e lm wx wy scale cosR sinR) [] [0..<21])))"

section \<open>The kNN classifier on doubles\<close>

text \<open>
  \<open>l2Distance\<close>: a read of \<open>b[i]\<close> past the end of \<open>b\<close> is \<open>undefined\<close>, which the
  subtraction turns into NaN.
\<close>

definition nth_num :: "num list \<Rightarrow> nat \<Rightarrow> num" where
  "nth_num b i = (if i < length b then b ! i else NaN)"

definition l2_step :: "host \<Rightarrow> num list \<Rightarrow> num list \<Rightarrow> num \<Rightarrow> nat \<Rightarrow> num" where
  "l2_step e a b s i = (let d = fsub e (a ! i) (nth_num b i) in fadd e s (fmul e d d))"

definition l2Distance_d :: "host \<Rightarrow> num list \<Rightarrow> num list \<Rightarrow> num" where
  "l2Distance_d e a b = fsqrt e (foldl (l2_step e a b) (Fin 0) [0..<length a])"

text \<open>
  The distance to a stored entry, for an entry that is an array of numbers; a number read
  from JSON is finite, and the sign of a stored zero does not enter the distance.
\<close>

definition distance_d :: "host \<Rightarrow> num list \<Rightarrow> json \<Rightarrow> num option" where
  "distance_d e feats b =
     (case as_vector b of None \<Rightarrow> None | Some v \<Rightarrow> Some (l2Distance_d e feats (map Fin v)))"

definition neighbors_of_d :: "host \<Rightarrow> state \<Rightarrow> num list \<Rightarrow> (string \<times> num option) list" where
  "neighbors_of_d e s feats =
     concat (map (\<lambda>label.
        (case examples s label of
           None \<Rightarrow> []
         | Some arr \<Rightarrow> map (\<lambda>b. (label, distance_d e feats b)) arr)) ALL_LABELS)"

text \<open>
  \<open>neighbors.sort((a, b) => a.d - b.d)\<close>.  For doubles that are not NaN the difference is
  negative exactly when \<open>a.d < b.d\<close> and positive exactly when \<open>b.d < a.d\<close> (it is zero, or
  NaN for two infinities, otherwise), and the sort is stable: an insertion sort that
  keeps the order of neighbours whose distances do not differ.
\<close>

fun insert_by_d :: "string \<times> num \<Rightarrow> (string \<times> num) list \<Rightarrow> (string \<times> num) list" where
  "insert_by_d x [] = [x]"
| "insert_by_d x (y # ys) =
     (if flt (snd y) (snd x) then y # insert_by_d x ys else x # y # ys)"

definition sort_by_d :: "(string \<times> num) list \<Rightarrow> (string \<times> num) list" where
  "sort_by_d xs = foldr insert_by_d xs []"

definition topK_of_d :: "(string \<times> num) list \<Rightarrow> (string \<times> num) list" where
  "topK_of_d neighbors =
     (let sorted = sort_by_d neighbors;
          k = min K (length sorted)
      in take k sorted)"

text \<open>The constants \<open>EPS\<close>, \<open>MIN_CONF\<close> and \<open>MIN_MARGIN\<close> as doubles.\<close>

definition EPS_d :: "host \<Rightarrow> num" where
  "EPS_d e = round_to e (1 / 1000000) False"

definition MIN_CONF_d :: "host \<Rightarrow> num" where
  "MIN_CONF_d e = round_to e (62 / 100) False"

definition MIN_MARGIN_d :: "host \<Rightarrow> num" where
  "MIN_MARGIN_d e = round_to e (12 / 100) False"

definition or0_d :: "num option \<Rightarrow> num" where
  "or0_d v = (case v of None \<Rightarrow> Fin 0 | Some x \<Rightarrow> if falsy_num x then Fin 0 else x)"

definition add_score_d ::
  "host \<Rightarrow> (string \<times> num) list \<Rightarrow> string \<times> num \<Rightarrow> (string \<times> num) list" where
  "add_score_d e scores n =
     (let label = fst n; d = snd n; w = fdiv e (Fin 1) (fadd e d (EPS_d e))
      in AList.update label (fadd e (or0_d (map_of scores label)) w) scores)"

definition scores_of_d :: "host \<Rightarrow> (string \<times> num) list \<Rightarrow> (string \<times> num) list" where
  "scores_of_d e topK = foldl (add_score_d e) [] topK"

text \<open>
  The loop over \<open>Object.keys(scores)\<close>: \<open>best\<close> and \<open>second\<close> are a label (or \<open>null\<close>) with
  its score, \<open>-Infinity\<close> at the start.
\<close>

definition best_step_d ::
  "(string option \<times> num) \<times> (string option \<times> num) \<Rightarrow> string \<times> num \<Rightarrow>
   (string option \<times> num) \<times> (string option \<times> num)" where
  "best_step_d bs entry =
     (let best = fst bs; second = snd bs; label = fst entry; s = snd entry in
      if flt (snd best) s then ((Some label, s), best)
      else if flt (snd second) s then (best, (Some label, s))
      else (best, second))"

definition best_second_d ::
  "(string \<times> num) list \<Rightarrow> (string option \<times> num) \<times> (string option \<times> num)" where
  "best_second_d scores = foldl best_step_d ((None, NInf), (None, NInf)) scores"

definition bestLabel_of_d :: "(string \<times> num) list \<Rightarrow> string option" where
  "bestLabel_of_d scores = fst (fst (best_second_d scores))"

definition bestScore_of_d :: "(string \<times> num) list \<Rightarrow> num" where
  "bestScore_of_d scores = snd (fst (best_second_d scores))"

definition secondLabel_of_d :: "(string \<times> num) list \<Rightarrow> string option" where
  "secondLabel_of_d scores = fst (snd (best_second_d scores))"

text \<open>\<open>if (!isFinite(secondScore)) secondScore = 0\<close>.\<close>

definition secondScore_of_d :: "(string \<times> num) list \<Rightarrow> num" where
  "secondScore_of_d scores =
     (let s = snd (snd (best_second_d scores)) in if isFinite s then s else Fin 0)"

definition total_of_d :: "host \<Rightarrow> (string \<times> num) list \<Rightarrow> num" where
  "total_of_d e scores = foldl (fadd e) (Fin 0) (map snd scores)"

definition conf_of_d :: "host \<Rightarrow> (string \<times> num) list \<Rightarrow> num" where
  "conf_of_d e scores =
     (if flt (Fin 0) (total_of_d e scores)
      then fdiv e (bestScore_of_d scores) (total_of_d e scores) else Fin 0)"

definition secondConf_of_d :: "host \<Rightarrow> (string \<times> num) list \<Rightarrow> num" where
  "secondConf_of_d e scores =
     (if flt (Fin 0) (total_of_d e scores)
      then fdiv e (secondScore_of_d scores) (total_of_d e scores) else Fin 0)"

definition margin_of_d :: "host \<Rightarrow> (string \<times> num) list \<Rightarrow> num" where
  "margin_of_d e scores = fsub e (conf_of_d e scores) (secondConf_of_d e scores)"

datatype rval_d =
    DNum num
  | DLabel "string option"
  | DScores "(string \<times> num) list"

definition knn_object_d ::
  "string option \<Rightarrow> num \<Rightarrow> string option \<Rightarrow> string option \<Rightarrow> (string \<times> num) list \<Rightarrow>
   (string \<times> rval_d) list" where
  "knn_object_d label conf best second scores =
     [(''label'', DLabel label), (''conf'', DNum conf), (''best'', DLabel best),
      (''second'', DLabel second), (''scores'', DScores scores)]"

definition gate_d :: "host \<Rightarrow> (string \<times> num) list \<Rightarrow> (string \<times> rval_d) list" where
  "gate_d e scores =
     (let bestLabel = bestLabel_of_d scores;
          secondLabel = secondLabel_of_d scores;
          conf = conf_of_d e scores;
          margin = margin_of_d e scores
      in if bestLabel = Some NONE_LABEL
         then knn_object_d (Some NONE_LABEL) conf bestLabel secondLabel scores
         else if flt conf (MIN_CONF_d e) \<or> flt margin (MIN_MARGIN_d e)
         then knn_object_d (Some NONE_LABEL) conf bestLabel secondLabel scores
         else knn_object_d bestLabel conf bestLabel secondLabel scores)"

text \<open>
  \<open>classifyKNN\<close> on doubles.  \<open>Knn_outside_d\<close> stands for the runs the model does not
  follow: a stored entry that is not an array of numbers, or a distance that is NaN, for
  which the order that the sort leaves is not determined.
\<close>

datatype knn_d =
    Knn_null_d
  | Knn_result_d "(string \<times> rval_d) list"
  | Knn_outside_d

definition measured :: "string \<times> num option \<Rightarrow> (string \<times> num) option" where
  "measured n =
     (case snd n of None \<Rightarrow> None | Some d \<Rightarrow> if d = NaN then None else Some (fst n, d))"

definition classifyKNN_d :: "host \<Rightarrow> state \<Rightarrow> num list \<Rightarrow> knn_d" where
  "classifyKNN_d e s feats =
     (let raw = neighbors_of_d e s feats in
      if length raw = 0 then Knn_null_d
      else
        (case those (map measured raw) of
           None \<Rightarrow> Knn_outside_d
         | Some neighbors \<Rightarrow> Knn_result_d (gate_d e (scores_of_d e (topK_of_d neighbors)))))"

section \<open>Reference definitions and sample inputs\<close>

text \<open>A hand whose 21 keypoints all lie at the origin, a host with clock \<open>t\<close>, and the
  initial state once that hand has been delivered.\<close>

definition demo_kps :: "keypoint list" where
  "demo_kps = replicate 21 \<lparr>kx = 0, ky = 0, kz = None\<rparr>"

definition demo_hand :: hand where
  "demo_hand = \<lparr>keypoints = Some demo_kps\<rparr>"

definition demo_host :: "real \<Rightarrow> host" where
  "demo_host t =
     \<lparr>millis = t, isoDate = ''2026-02-19T00:00:00.000Z'', numberToString = (\<lambda>r. ''0''),
      JSON_parse = (\<lambda>t. Inl ''Unexpected token''), atob = (\<lambda>t. Inl ''Invalid character''),
      decodeURIComponent = (\<lambda>t. Inl ''URI malformed''), setItem_throws = (\<lambda>p. None),
      fround = ieee_round,
      Math_atan2 = sample_atan2, Math_cos = sample_cos, Math_sin = sample_sin\<rparr>"

text \<open>The same host with a full \<open>localStorage\<close>: every write throws.\<close>

definition full_host :: "real \<Rightarrow> host" where
  "full_host t = (demo_host t)\<lparr>setItem_throws := (\<lambda>p. Some ''QuotaExceededError'')\<rparr>"

definition demo_state :: state where
  "demo_state = gotHands (Some [demo_hand]) init_state"

text \<open>
  A sequence of \<open>addExample\<close> calls (label, silent, host at the call), run in order; an
  exception ends a call, not the sequence.
\<close>

fun run_adds :: "(string \<times> bool \<times> host) list \<Rightarrow> state \<Rightarrow> state" where
  "run_adds [] s = s"
| "run_adds ((label, silent, e) # cs) s = run_adds cs (snd (addExample label silent e s))"

text \<open>
  The start of the debounce window after a sequence of calls, starting from \<open>t\<close>: the time
  of the most recent call that got past the debounce test, silent or not.
\<close>

fun window_start :: "real \<Rightarrow> (string \<times> bool \<times> host) list \<Rightarrow> real" where
  "window_start t [] = t"
| "window_start t ((label, silent, e) # cs) =
     window_start (if \<not> silent \<and> millis e - t < ADD_DEBOUNCE_MS then t else millis e) cs"

text \<open>
  The start of the window if silent calls left it alone: the time of the most recent
  non-silent call that was not rejected.
\<close>

fun nonsilent_window_start :: "real \<Rightarrow> (string \<times> bool \<times> host) list \<Rightarrow> real" where
  "nonsilent_window_start t [] = t"
| "nonsilent_window_start t ((label, silent, e) # cs) =
     nonsilent_window_start
       (if silent \<or> millis e - t < ADD_DEBOUNCE_MS then t else millis e) cs"

text \<open>A tap at 500 ms, then one recorded (silent) capture at 1000 ms.\<close>

definition tap_then_record :: "(string \<times> bool \<times> host) list" where
  "tap_then_record = [(''A'', False, demo_host 500), (''A'', True, demo_host 1000)]"

text \<open>
  An import is rejected when parsing throws or the payload has no truthy \<open>examples\<close>.
\<close>

definition import_rejected :: "host \<Rightarrow> import_file \<Rightarrow> bool" where
  "import_rejected e f =
     (case parseMaybeJSON e f of
        Inl err \<Rightarrow> True
      | Inr payload \<Rightarrow>
          \<not> truthy payload
          \<or> (case get_prop payload ''examples'' of None \<Rightarrow> True | Some x \<Rightarrow> \<not> truthy x))"

text \<open>
  Sample files: an object whose history names a label that is not a key of \<open>examples\<close>, an
  object without \<open>examples\<close>, and text that the sample host's \<open>JSON.parse\<close> refuses.
\<close>

definition foo_payload :: json where
  "foo_payload = JObj [(''examples'', JObj []), (''addHistory'', JArr [JStr ''foo''])]"

definition foo_file :: import_file where
  "foo_file = ImportFile (Some foo_payload)"

definition no_examples_file :: import_file where
  "no_examples_file = ImportFile (Some (JObj [(''addHistory'', JArr [])]))"

definition garbled_file :: import_file where
  "garbled_file = ImportFile (Some (JStr ''{not json''))"


definition steady_window_state :: state where
  "steady_window_state =
     init_state\<lparr>smoothQueue := replicate 3 ''B'' @ replicate 9 ''A'', lastLabel := Some ''A'',
                lastConf := 9 / 10\<rparr>"


text \<open>
  The classifier as the specification words it.  The L2 distance of the query to a stored
  vector; the neighbours of a query, one per stored example; what it means for \<open>topK\<close> to
  be the \<open>min(7, n)\<close> nearest of them; the weight \<open>1 / (distance + 1e-6)\<close>; the score of
  a label, the sum of the weights of its neighbours; the total; a raw best label, one of
  maximal score; confidence, second score (0 if no other label appears) and margin.
\<close>

definition euclid :: "real list \<Rightarrow> real list \<Rightarrow> real" where
  "euclid a b = sqrt (\<Sum>i<length a. (a ! i - b ! i)\<^sup>2)"

definition vector_of :: "json \<Rightarrow> real list" where
  "vector_of b = (case as_vector b of None \<Rightarrow> [] | Some v \<Rightarrow> v)"

definition spec_neighbors :: "state \<Rightarrow> real list \<Rightarrow> (string \<times> real) list" where
  "spec_neighbors s feats =
     concat (map (\<lambda>l.
        (case examples s l of
           None \<Rightarrow> []
         | Some arr \<Rightarrow> map (\<lambda>b. (l, euclid feats (vector_of b))) arr)) ALL_LABELS)"


definition spec_weight :: "real \<Rightarrow> real" where
  "spec_weight d = 1 / (d + 1 / 1000000)"







text \<open>
  The stored entries that the classifier can measure against a query: arrays of numbers
  at least as long as the query.
\<close>

definition is_vector_for :: "real list \<Rightarrow> json \<Rightarrow> bool" where
  "is_vector_for feats b =
     (case as_vector b of None \<Rightarrow> False | Some v \<Rightarrow> length feats \<le> length v)"

definition dataset_ok :: "state \<Rightarrow> real list \<Rightarrow> bool" where
  "dataset_ok s feats =
     list_all (\<lambda>l. case examples s l of None \<Rightarrow> True
                   | Some arr \<Rightarrow> list_all (is_vector_for feats) arr) ALL_LABELS"

text \<open>
  Sample datasets.  \<open>two_cluster_state vA vN\<close> holds seven copies of \<open>vA\<close> under A and seven
  of \<open>vN\<close> under NONE.  \<open>tie_state\<close> holds the query \<open>origin42\<close> itself under B and, under A,
  two copies of a vector at distance \<open>EPS\<close> from it, so that A and B reach the same score.
\<close>

definition two_cluster_state :: "real list \<Rightarrow> real list \<Rightarrow> state" where
  "two_cluster_state vA vN =
     init_state\<lparr>examples := (examples init_state)
        (''A'' \<mapsto> replicate 7 (vec vA), ''NONE'' \<mapsto> replicate 7 (vec vN))\<rparr>"

definition origin42 :: "real list" where
  "origin42 = replicate 42 0"

definition unit42 :: "real \<Rightarrow> real list" where
  "unit42 c = c # replicate 41 0"


section \<open>Reference definitions on doubles\<close>

text \<open>
  What the theorems on doubles assume of the rounding \<open>fround\<close>: the rounded value is no
  further from \<open>x\<close> than zero is (so zero is rounded to zero and no sign is flipped); from
  \<open>2^-1022\<close> on, where doubles are normal, the error is at most half of \<open>\<bar>x\<bar>\<close> (it is at
  most \<open>\<bar>x\<bar> / 2^53\<close> for round-to-nearest); and no double other than zero is smaller in
  magnitude than \<open>2^-1074\<close>.  Of the library functions they assume that a finite argument
  gives a finite result, of magnitude at most 8 for \<open>Math.atan2\<close> (it is at most \<open>\<pi>\<close>)
  and at most 2 for \<open>Math.cos\<close> and \<open>Math.sin\<close> (it is at most 1).
\<close>

definition rounding_ok :: "(real \<Rightarrow> real) \<Rightarrow> bool" where
  "rounding_ok rnd =
     ((\<forall>x. \<bar>rnd x - x\<bar> \<le> \<bar>x\<bar>)
      \<and> (\<forall>x. 1 / 2 ^ 1022 \<le> \<bar>x\<bar> \<longrightarrow> \<bar>rnd x - x\<bar> \<le> \<bar>x\<bar> / 2)
      \<and> (\<forall>x. rnd x \<noteq> 0 \<longrightarrow> 1 / 2 ^ 1074 \<le> \<bar>rnd x\<bar>))"

definition bounded_by :: "real \<Rightarrow> num \<Rightarrow> bool" where
  "bounded_by m a = (isFinite a \<and> \<bar>val a\<bar> \<le> m)"

definition trig_ok :: "host \<Rightarrow> bool" where
  "trig_ok e =
     ((\<forall>y x. isFinite y \<and> isFinite x \<longrightarrow> bounded_by 8 (Math_atan2 e y x))
      \<and> (\<forall>x. isFinite x \<longrightarrow> bounded_by 2 (Math_cos e x) \<and> bounded_by 2 (Math_sin e x)))"

text \<open>
  The doubles that are not negative: a real \<open>r \<ge> 0\<close> (the zero with positive sign
  included) and \<open>+Infinity\<close>.  \<open>rank\<close> places the doubles other than NaN in the order in
  which \<open><\<close> compares them.
\<close>

fun nonneg :: "num \<Rightarrow> bool" where
  "nonneg (Fin r) = (0 \<le> r)"
| "nonneg PInf = True"
| "nonneg NZero = False"
| "nonneg NInf = False"
| "nonneg NaN = False"

fun rank :: "num \<Rightarrow> nat \<times> real" where
  "rank NInf = (0, 0)"
| "rank (Fin r) = (1, r)"
| "rank NZero = (1, 0)"
| "rank PInf = (2, 0)"
| "rank NaN = (3, 0)"

text \<open>
  The extraction as the specification words it, in double arithmetic: translate by the
  wrist, divide by the scale (1 where the computed length is zero), rotate by
  \<open>-\<pi>/2 - atan2(dy, dx)\<close>, and flatten the pairs in landmark order.
\<close>

definition spec_scale_d :: "host \<Rightarrow> dkeypoint list \<Rightarrow> num" where
  "spec_scale_d e kps =
     (let dx = fsub e (px (kps ! 9)) (px (kps ! 0));
          dy = fsub e (py (kps ! 9)) (py (kps ! 0));
          d = fsqrt e (fadd e (fmul e dx dx) (fmul e dy dy))
      in if d = NaN \<or> is_zero d then Fin 1 else d)"

definition spec_rotation_d :: "host \<Rightarrow> dkeypoint list \<Rightarrow> num" where
  "spec_rotation_d e kps =
     (let dx = fsub e (px (kps ! 9)) (px (kps ! 0));
          dy = fsub e (py (kps ! 9)) (py (kps ! 0))
      in fsub e (fdiv e (fneg (Math_PI e)) (Fin 2)) (Math_atan2 e dy dx))"

definition extract_spec_d :: "host \<Rightarrow> dkeypoint list \<Rightarrow> num list" where
  "extract_spec_d e kps =
     (let wx = px (kps ! 0);
          wy = py (kps ! 0);
          scale = spec_scale_d e kps;
          c = Math_cos e (spec_rotation_d e kps);
          s = Math_sin e (spec_rotation_d e kps)
      in concat (map (\<lambda>k.
           let x = fdiv e (fsub e (px k) wx) scale;
               y = fdiv e (fsub e (py k) wy) scale
           in [fsub e (fmul e x c) (fmul e y s), fadd e (fmul e x s) (fmul e y c)]) kps))"

text \<open>
  Sample hands: a fan with keypoint \<open>i\<close> at \<open>(i, 2 i + 1)\<close>; a hand with every keypoint at
  the origin; and, with \<open>BIG = 2^1023\<close> (a double), a hand whose keypoints lie at
  \<open>x = -BIG\<close> except for the reference joint, at \<open>x = BIG\<close>, so that the difference of the
  two overflows.
\<close>

definition BIG :: real where
  "BIG = 2 ^ 1023"

definition fan_kps :: "dkeypoint list" where
  "fan_kps = map (\<lambda>i. \<lparr>px = Fin (real i), py = Fin (real (2 * i + 1)), pz = None\<rparr>) [0..<21]"

definition flat_kps :: "dkeypoint list" where
  "flat_kps = replicate 21 \<lparr>px = Fin 0, py = Fin 0, pz = None\<rparr>"

definition overflow_kps :: "dkeypoint list" where
  "overflow_kps =
     (replicate 21 \<lparr>px = Fin (- BIG), py = Fin 0, pz = None\<rparr>)
       [9 := \<lparr>px = Fin BIG, py = Fin 0, pz = None\<rparr>]"

text \<open>
  The classifier as the specification words it, in double arithmetic.  The L2 distance of
  the query to a stored vector; the neighbours of a query, one per stored example; what it
  means for \<open>topK\<close> to be the \<open>min(7, n)\<close> nearest of them, listed by ascending distance;
  the weight \<open>1 / (distance + 1e-6)\<close>; the score of a label, the sum of the weights of its
  neighbours, added up in the order of \<open>topK\<close>; the total of the scores, added up in the
  order in which the labels first appear in \<open>topK\<close>; a raw best label, one of maximal
  score; the confidence, the best score over the total (0 unless the total is positive);
  the second score, the largest score of another label (0 if there is none, or if it is
  not finite); and the margin.
\<close>

definition euclid_d :: "host \<Rightarrow> num list \<Rightarrow> num list \<Rightarrow> num" where
  "euclid_d e a b =
     fsqrt e (foldl (fadd e) (Fin 0)
       (map (\<lambda>p. fmul e (fsub e (fst p) (snd p)) (fsub e (fst p) (snd p))) (zip a b)))"

definition spec_neighbors_d :: "host \<Rightarrow> state \<Rightarrow> num list \<Rightarrow> (string \<times> num) list" where
  "spec_neighbors_d e s feats =
     concat (map (\<lambda>l.
        (case examples s l of
           None \<Rightarrow> []
         | Some arr \<Rightarrow> map (\<lambda>b. (l, euclid_d e feats (map Fin (vector_of b)))) arr)) ALL_LABELS)"

definition ascending :: "(string \<times> num) list \<Rightarrow> bool" where
  "ascending ns = sorted_wrt (\<lambda>a b. \<not> flt (snd b) (snd a)) ns"

definition k_nearest_d :: "(string \<times> num) list \<Rightarrow> (string \<times> num) list \<Rightarrow> bool" where
  "k_nearest_d neighbors topK =
     (length topK = min 7 (length neighbors)
      \<and> ascending topK
      \<and> (\<exists>others. mset neighbors = mset topK + mset others
            \<and> (\<forall>y\<in>set topK. \<forall>x\<in>set others. \<not> flt (snd x) (snd y))))"

definition spec_weight_d :: "host \<Rightarrow> num \<Rightarrow> num" where
  "spec_weight_d e d = fdiv e (Fin 1) (fadd e d (EPS_d e))"

definition label_score_d :: "host \<Rightarrow> (string \<times> num) list \<Rightarrow> string \<Rightarrow> num" where
  "label_score_d e topK l =
     foldl (fadd e) (Fin 0)
       (map (\<lambda>n. spec_weight_d e (snd n)) (filter (\<lambda>n. fst n = l) topK))"

definition label_order :: "(string \<times> num) list \<Rightarrow> string list" where
  "label_order topK = rev (remdups (rev (map fst topK)))"

definition total_score_d :: "host \<Rightarrow> (string \<times> num) list \<Rightarrow> num" where
  "total_score_d e topK =
     foldl (fadd e) (Fin 0) (map (label_score_d e topK) (label_order topK))"

definition raw_best_d :: "host \<Rightarrow> (string \<times> num) list \<Rightarrow> string \<Rightarrow> bool" where
  "raw_best_d e topK best =
     (best \<in> fst ` set topK
      \<and> (\<forall>l\<in>fst ` set topK. \<not> flt (label_score_d e topK best) (label_score_d e topK l)))"

definition spec_confidence_d :: "host \<Rightarrow> (string \<times> num) list \<Rightarrow> string \<Rightarrow> num" where
  "spec_confidence_d e topK best =
     (if flt (Fin 0) (total_score_d e topK)
      then fdiv e (label_score_d e topK best) (total_score_d e topK) else Fin 0)"

definition fmax :: "num \<Rightarrow> num \<Rightarrow> num" where
  "fmax a b = (if flt a b then b else a)"

definition spec_second_score_d :: "host \<Rightarrow> (string \<times> num) list \<Rightarrow> string \<Rightarrow> num" where
  "spec_second_score_d e topK best =
     (let m = foldl fmax NInf
                (map (label_score_d e topK) (filter (\<lambda>l. l \<noteq> best) (label_order topK)))
      in if isFinite m then m else Fin 0)"

definition spec_margin_d :: "host \<Rightarrow> (string \<times> num) list \<Rightarrow> string \<Rightarrow> num" where
  "spec_margin_d e topK best =
     fsub e (spec_confidence_d e topK best)
       (if flt (Fin 0) (total_score_d e topK)
        then fdiv e (spec_second_score_d e topK best) (total_score_d e topK) else Fin 0)"

text \<open>
  The stored entries that the classifier can measure against a query: arrays of numbers
  at least as long as the query.
\<close>

definition dataset_ok_d :: "state \<Rightarrow> num list \<Rightarrow> bool" where
  "dataset_ok_d s feats =
     list_all (\<lambda>l. case examples s l of None \<Rightarrow> True
                   | Some arr \<Rightarrow>
                       list_all (\<lambda>b. case as_vector b of None \<Rightarrow> False
                                      | Some v \<Rightarrow> length feats \<le> length v) arr) ALL_LABELS"

text \<open>
  A dataset with one example under A, and a query so far from it that the difference
  overflows.
\<close>

definition far_state :: state where
  "far_state = init_state\<lparr>examples := (examples init_state)(''A'' \<mapsto> [vec [- BIG]])\<rparr>"

definition far_query :: "num list" where
  "far_query = [Fin BIG]"

section \<open>Facts about the sample inputs\<close>

lemma demo_feats: "getHandFeatures [demo_hand] = Some (replicate 42 0)"
  by (simp add: getHandFeatures_def demo_hand_def demo_kps_def getLandmarks21_def hand_scale_def
      atan2_def feats_push_def Let_def upt_rec numeral_eq_Suc)

lemma demo_state_hands: "hands demo_state = [demo_hand]"
  by (simp add: demo_state_def gotHands_def)

lemma demo_state_lastAddAt: "lastAddAt demo_state = 0"
  by (simp add: demo_state_def gotHands_def init_state_def)

lemma demo_state_addHistory: "addHistory demo_state = []"
  by (simp add: demo_state_def gotHands_def init_state_def)

lemma demo_state_examples_A: "examples demo_state ''A'' = Some []"
  by (simp add: demo_state_def gotHands_def init_state_def ALL_LABELS_def LABELS_def
      NONE_LABEL_def)

lemma millis_demo_host: "millis (demo_host t) = t"
  by (simp add: demo_host_def)

section \<open>Adding and undoing\<close>

lemma addExample_lastAddAt:
  "lastAddAt (snd (addExample label silent e s)) =
     (if \<not> silent \<and> millis e - lastAddAt s < ADD_DEBOUNCE_MS then lastAddAt s else millis e)"
  by (simp add: addExample_def saveDataset_def Let_def split: option.splits)

lemma addExample_hands: "hands (snd (addExample label silent e s)) = hands s"
  by (simp add: addExample_def saveDataset_def Let_def split: option.splits)

lemma addExample_rejected:
  "\<not> silent \<Longrightarrow> millis e - lastAddAt s < ADD_DEBOUNCE_MS \<Longrightarrow>
   addExample label silent e s = (Inr False, s)"
  by (simp add: addExample_def)

lemma addExample_succeeds:
  assumes "getHandFeatures (hands s) = Some feats" and "examples s label = Some arr"
    and "silent \<or> \<not> millis e - lastAddAt s < ADD_DEBOUNCE_MS"
  shows "fst (addExample label silent e s) = Inr True"
    and "examples (snd (addExample label silent e s)) = (examples s)(label \<mapsto> arr @ [vec feats])"
    and "addHistory (snd (addExample label silent e s)) = addHistory s @ [JStr label]"
  using assms by (auto simp: addExample_def saveDataset_def Let_def)

lemma addExample_rejected_iff:
  "(addExample label False e s = (Inr False, s)) = (millis e - lastAddAt s < ADD_DEBOUNCE_MS)"
proof
  assume a: "addExample label False e s = (Inr False, s)"
  show "millis e - lastAddAt s < ADD_DEBOUNCE_MS"
  proof (rule ccontr)
    assume n: "\<not> millis e - lastAddAt s < ADD_DEBOUNCE_MS"
    have "lastAddAt (snd (addExample label False e s)) = millis e"
      using n by (simp add: addExample_lastAddAt)
    with a have "lastAddAt s = millis e" by simp
    with n show False by (simp add: ADD_DEBOUNCE_MS_def)
  qed
next
  assume "millis e - lastAddAt s < ADD_DEBOUNCE_MS"
  then show "addExample label False e s = (Inr False, s)"
    by (simp add: addExample_rejected)
qed

lemma run_adds_lastAddAt: "lastAddAt (run_adds cs s) = window_start (lastAddAt s) cs"
  by (induction cs s rule: run_adds.induct) (simp_all add: addExample_lastAddAt)

text \<open>
  C2.  When \<open>addExample\<close> succeeds, an \<open>undoLast\<close> that follows it returns normally and
  leaves \<open>examples\<close> and \<open>addHistory\<close> exactly as they were before the add, for every label
  and every state; and on an empty \<open>addHistory\<close>, \<open>undoLast\<close> only sets the status message
  to "Nothing to undo".
\<close>

theorem addExample_undoLast_inverse:
  "(addExample label silent e s = (Inr True, s') \<longrightarrow>
      fst (undoLast e' s') = Inr ()
      \<and> examples (snd (undoLast e' s')) = examples s
      \<and> addHistory (snd (undoLast e' s')) = addHistory s)
   \<and> (addHistory s = [] \<longrightarrow> undoLast e' s = (Inr (), s\<lparr>statusMsg := Msg_NothingToUndo\<rparr>))"
  by (auto simp: addExample_def undoLast_def saveDataset_def Let_def map_upd_triv
      split: if_splits option.splits)

theorem addExample_undoLast_inverse_witness:
  "fst (addExample ''A'' False (demo_host 500) demo_state) = Inr True
   \<and> fst (undoLast (demo_host 900) (snd (addExample ''A'' False (demo_host 500) demo_state)))
       = Inr ()
   \<and> examples (snd (undoLast (demo_host 900)
         (snd (addExample ''A'' False (demo_host 500) demo_state)))) = examples demo_state
   \<and> addHistory (snd (undoLast (demo_host 900)
         (snd (addExample ''A'' False (demo_host 500) demo_state)))) = addHistory demo_state
   \<and> addHistory demo_state = []
   \<and> undoLast (demo_host 900) demo_state
       = (Inr (), demo_state\<lparr>statusMsg := Msg_NothingToUndo\<rparr>)"
proof -
  have ok: "fst (addExample ''A'' False (demo_host 500) demo_state) = Inr True"
    by (rule addExample_succeeds(1)[where feats = "replicate 42 0" and arr = "[]"])
      (simp_all add: demo_state_hands demo_feats demo_state_examples_A demo_state_lastAddAt
        millis_demo_host ADD_DEBOUNCE_MS_def)
  then have eq: "addExample ''A'' False (demo_host 500) demo_state
      = (Inr True, snd (addExample ''A'' False (demo_host 500) demo_state))"
    by (simp add: prod_eq_iff)
  show ?thesis
    using addExample_undoLast_inverse [of "''A''" False "demo_host 500" demo_state
        "snd (addExample ''A'' False (demo_host 500) demo_state)" "demo_host 900"]
      ok eq demo_state_addHistory
    by simp
qed

lemma tap_then_record_window: "window_start (lastAddAt demo_state) tap_then_record = 1000"
  by (simp add: tap_then_record_def demo_state_lastAddAt millis_demo_host ADD_DEBOUNCE_MS_def)

lemma tap_then_record_nonsilent:
  "nonsilent_window_start (lastAddAt demo_state) tap_then_record = 500"
  by (simp add: tap_then_record_def demo_state_lastAddAt millis_demo_host ADD_DEBOUNCE_MS_def)

text \<open>
  C7, as the source has it.  After any sequence of calls the debounce window starts at the
  most recent call that got past the debounce test, silent or not and whether or not it
  stored an example; a non-silent \<open>addExample\<close> is rejected, leaving the state as it was,
  exactly when less than \<open>ADD_DEBOUNCE_MS\<close> has elapsed since then; a silent call is never
  rejected by the test and restarts the window.
\<close>

theorem addExample_debounce_window:
  "lastAddAt (run_adds cs s) = window_start (lastAddAt s) cs
   \<and> (addExample label False e (run_adds cs s) = (Inr False, run_adds cs s))
       = (millis e - window_start (lastAddAt s) cs < ADD_DEBOUNCE_MS)
   \<and> lastAddAt (snd (addExample label True e (run_adds cs s))) = millis e"
  by (simp add: addExample_rejected_iff run_adds_lastAddAt addExample_lastAddAt)

theorem addExample_debounce_window_witness:
  "lastAddAt (run_adds tap_then_record demo_state) = 1000
   \<and> addExample ''A'' False (demo_host 1100) (run_adds tap_then_record demo_state)
       = (Inr False, run_adds tap_then_record demo_state)
   \<and> lastAddAt (snd (addExample ''A'' True (demo_host 1100)
         (run_adds tap_then_record demo_state))) = 1100"
  using addExample_debounce_window [of tap_then_record demo_state "''A''" "demo_host 1100"]
  unfolding tap_then_record_window
  by (simp add: millis_demo_host ADD_DEBOUNCE_MS_def)

text \<open>
  C7 as stated fails: a tap at 500 ms is accepted, a silent capture follows at 1000 ms, and
  a tap at 1100 ms, 600 ms after the last non-silent add, is rejected.
\<close>

theorem addExample_debounce_counterexample:
  "(addExample ''A'' False (demo_host 1100) (run_adds tap_then_record demo_state)
      = (Inr False, run_adds tap_then_record demo_state))
   \<noteq> (millis (demo_host 1100) - nonsilent_window_start (lastAddAt demo_state) tap_then_record
        < ADD_DEBOUNCE_MS)"
  by (simp add: addExample_rejected_iff run_adds_lastAddAt tap_then_record_window
      tap_then_record_nonsilent millis_demo_host ADD_DEBOUNCE_MS_def)

section \<open>Smoothing\<close>

lemma or0_simps [simp]: "or0 None = 0" "or0 (Some x) = x"
  by (simp_all add: or0_def)













section \<open>Import and clear\<close>

lemma foldl_map_upd:
  "foldl (\<lambda>m l. m(l \<mapsto> g l)) m ls k = (if k \<in> set ls then Some (g k) else m k)"
  by (induction ls arbitrary: m) auto

lemma handleImport_rejected:
  assumes "import_rejected e f"
  shows "\<exists>err. handleImport e (Some f) s = s\<lparr>statusMsg := Msg_ImportFailed err\<rparr>"
  using assms
  by (auto simp: handleImport_def import_rejected_def import_failed_def
      split: sum.splits option.splits)

lemma handleImport_accepted:
  assumes "\<not> import_rejected e f"
  shows "\<exists>payload. parseMaybeJSON e f = Inr payload
           \<and> handleImport e (Some f) s = install_payload e payload s"
  using assms
  by (auto simp: handleImport_def import_rejected_def split: sum.splits option.splits)

lemma replace_store_examples:
  "examples (replace_store payload s) l =
     (if l \<in> set ALL_LABELS
      then Some (array_or_empty (case get_prop payload ''examples'' of None \<Rightarrow> None
                                                                  | Some x \<Rightarrow> get_prop x l))
      else examples s l)"
  by (simp add: replace_store_def Let_def foldl_map_upd)

lemma replace_store_addHistory:
  "addHistory (replace_store payload s) = array_or_empty (get_prop payload ''addHistory'')"
  by (simp add: replace_store_def Let_def)

lemma replace_store_storage: "storage (replace_store payload s) = storage s"
  by (simp add: replace_store_def Let_def)

lemma install_payload_written:
  assumes "setItem_throws e (snapshot_of e (replace_store payload s)) = None"
  shows "install_payload e payload s =
     (saveDataset e (replace_store payload s))
       \<lparr>smoothQueue := [], lastLabel := None, lastConf := 0, recordLabel := None,
         recordMode := False,
         statusMsg := Msg_Imported (totalExamples (replace_store payload s))\<rparr>"
  using assms by (simp add: install_payload_def Let_def saveDataset_def totalExamples_def)

lemma install_payload_thrown:
  assumes "setItem_throws e (snapshot_of e (replace_store payload s)) = Some m"
  shows "install_payload e payload s =
     (replace_store payload s)\<lparr>statusMsg := import_failed (Err_Builtin m)\<rparr>"
  using assms by (simp add: install_payload_def Let_def)

lemma install_payload_examples:
  "examples (install_payload e payload s) l =
     (if l \<in> set ALL_LABELS
      then Some (array_or_empty (case get_prop payload ''examples'' of None \<Rightarrow> None
                                                                  | Some x \<Rightarrow> get_prop x l))
      else examples s l)"
proof (cases "setItem_throws e (snapshot_of e (replace_store payload s))")
  case None
  then show ?thesis
    by (simp add: install_payload_written saveDataset_def replace_store_examples)
next
  case (Some m)
  then show ?thesis by (simp add: install_payload_thrown replace_store_examples)
qed

lemma install_payload_addHistory:
  "addHistory (install_payload e payload s) = array_or_empty (get_prop payload ''addHistory'')"
proof (cases "setItem_throws e (snapshot_of e (replace_store payload s))")
  case None
  then show ?thesis
    by (simp add: install_payload_written saveDataset_def replace_store_addHistory)
next
  case (Some m)
  then show ?thesis by (simp add: install_payload_thrown replace_store_addHistory)
qed

lemma snapshot_of_install:
  "snapshot_of e (install_payload e payload s) = snapshot_of e (replace_store payload s)"
proof -
  have "examples (install_payload e payload s) = examples (replace_store payload s)"
    by (rule ext) (simp add: install_payload_examples replace_store_examples)
  then show ?thesis by (simp add: snapshot_of_def install_payload_addHistory replace_store_addHistory)
qed

lemma totalExamples_cong:
  "examples s = examples t \<Longrightarrow> totalExamples s = totalExamples t"
  by (simp add: totalExamples_def)

lemma install_payload_status:
  assumes "setItem_throws e (snapshot_of e (install_payload e payload s)) = None"
  shows "statusMsg (install_payload e payload s)
       = Msg_Imported (totalExamples (install_payload e payload s))"
    and "storage (install_payload e payload s)
       = Some (snapshot_of e (install_payload e payload s))"
proof -
  have w: "setItem_throws e (snapshot_of e (replace_store payload s)) = None"
    using assms by (simp add: snapshot_of_install)
  have "examples (install_payload e payload s) = examples (replace_store payload s)"
    by (rule ext) (simp add: install_payload_examples replace_store_examples)
  then have t: "totalExamples (install_payload e payload s)
      = totalExamples (replace_store payload s)"
    by (rule totalExamples_cong)
  show "statusMsg (install_payload e payload s)
       = Msg_Imported (totalExamples (install_payload e payload s))"
    unfolding t by (simp add: install_payload_written[OF w])
  show "storage (install_payload e payload s)
       = Some (snapshot_of e (install_payload e payload s))"
    unfolding snapshot_of_install
    by (simp add: install_payload_written[OF w] saveDataset_def)
qed

lemma install_payload_failure:
  assumes "setItem_throws e (snapshot_of e (install_payload e payload s)) = Some m"
  shows "statusMsg (install_payload e payload s) = import_failed (Err_Builtin m)"
    and "storage (install_payload e payload s) = storage s"
proof -
  have w: "setItem_throws e (snapshot_of e (replace_store payload s)) = Some m"
    using assms by (simp add: snapshot_of_install)
  show "statusMsg (install_payload e payload s) = import_failed (Err_Builtin m)"
    by (simp add: install_payload_thrown[OF w])
  show "storage (install_payload e payload s) = storage s"
    by (simp add: install_payload_thrown[OF w] replace_store_storage)
qed

lemma install_payload_reset:
  assumes "statusMsg (install_payload e payload s) = Msg_Imported n"
  shows "smoothQueue (install_payload e payload s) = []"
    and "lastLabel (install_payload e payload s) = None"
    and "lastConf (install_payload e payload s) = 0"
    and "recordLabel (install_payload e payload s) = None"
    and "recordMode (install_payload e payload s) = False"
proof -
  have w: "setItem_throws e (snapshot_of e (replace_store payload s)) = None"
  proof (cases "setItem_throws e (snapshot_of e (replace_store payload s))")
    case None
    then show ?thesis .
  next
    case (Some m)
    from install_payload_thrown[OF this] assms show ?thesis
      by (simp add: import_failed_def)
  qed
  show "smoothQueue (install_payload e payload s) = []"
    "lastLabel (install_payload e payload s) = None"
    "lastConf (install_payload e payload s) = 0"
    "recordLabel (install_payload e payload s) = None"
    "recordMode (install_payload e payload s) = False"
    by (simp_all add: install_payload_written[OF w])
qed

lemma handleImport_cases:
  "handleImport e fl s = s\<lparr>statusMsg := Msg_ImportCancelled\<rparr>
   \<or> (\<exists>err. handleImport e fl s = s\<lparr>statusMsg := Msg_ImportFailed err\<rparr>)
   \<or> (\<exists>payload. handleImport e fl s = install_payload e payload s)"
proof (cases fl)
  case None
  then show ?thesis by (simp add: handleImport_def)
next
  case (Some f)
  show ?thesis
  proof (cases "import_rejected e f")
    case True
    from handleImport_rejected[OF this, of s] Some show ?thesis by blast
  next
    case False
    from handleImport_accepted[OF this, of s] Some show ?thesis by blast
  qed
qed

lemma demo_host_writes: "setItem_throws (demo_host t) p = None"
  by (simp add: demo_host_def)

lemma full_host_throws: "setItem_throws (full_host t) p = Some ''QuotaExceededError''"
  by (simp add: full_host_def)

lemma garbled_rejected: "import_rejected (demo_host t) garbled_file"
  by (simp add: import_rejected_def parseMaybeJSON_def garbled_file_def demo_host_def trim_def
      is_space_def startsWith_def)

lemma no_examples_rejected: "import_rejected e no_examples_file"
  by (simp add: import_rejected_def parseMaybeJSON_def no_examples_file_def)

lemma foo_parse: "parseMaybeJSON e foo_file = Inr foo_payload"
  by (simp add: parseMaybeJSON_def foo_file_def foo_payload_def)

lemma foo_accepted: "\<not> import_rejected e foo_file"
  by (simp add: import_rejected_def foo_parse) (simp add: foo_payload_def)

lemma foo_import: "handleImport e (Some foo_file) s = install_payload e foo_payload s"
  by (simp add: handleImport_def foo_parse) (simp add: foo_payload_def)

text \<open>
  C3.  When \<open>parseMaybeJSON\<close> throws, or the payload has no \<open>examples\<close> (or a falsy one),
  the import is rejected: \<open>handleImport\<close> changes nothing but the status message, which
  reports the failure, so \<open>examples\<close>, \<open>addHistory\<close> and the saved item are as before.
  Otherwise the store is replaced as a whole: every label of \<open>ALL_LABELS\<close> gets the
  payload's array (or the empty one) and \<open>addHistory\<close> the payload's history; the new
  store is then saved and the success reported, or, if the write throws, the saved item
  stays as it was and the status reports the exception of the write.
\<close>

theorem handleImport_atomic:
  "(parseMaybeJSON e f = Inl err \<longrightarrow> import_rejected e f)
   \<and> (parseMaybeJSON e f = Inr payload \<and> get_prop payload ''examples'' = None
        \<longrightarrow> import_rejected e f)
   \<and> (import_rejected e f \<longrightarrow>
        handleImport e (Some f) s = s\<lparr>statusMsg := statusMsg (handleImport e (Some f) s)\<rparr>
        \<and> examples (handleImport e (Some f) s) = examples s
        \<and> addHistory (handleImport e (Some f) s) = addHistory s
        \<and> storage (handleImport e (Some f) s) = storage s
        \<and> (\<exists>m. statusMsg (handleImport e (Some f) s) = Msg_ImportFailed m))
   \<and> (\<not> import_rejected e f \<longrightarrow>
        (\<exists>p x. parseMaybeJSON e f = Inr p \<and> get_prop p ''examples'' = Some x
           \<and> (\<forall>l\<in>set ALL_LABELS.
                 examples (handleImport e (Some f) s) l = Some (array_or_empty (get_prop x l)))
           \<and> addHistory (handleImport e (Some f) s) = array_or_empty (get_prop p ''addHistory'')
           \<and> (case setItem_throws e (snapshot_of e (handleImport e (Some f) s)) of
                 None \<Rightarrow>
                   (\<exists>n. statusMsg (handleImport e (Some f) s) = Msg_Imported n)
                   \<and> storage (handleImport e (Some f) s)
                       = Some (snapshot_of e (handleImport e (Some f) s))
               | Some m \<Rightarrow>
                   statusMsg (handleImport e (Some f) s) = import_failed (Err_Builtin m)
                   \<and> storage (handleImport e (Some f) s) = storage s)))"
proof (intro conjI impI)
  assume "parseMaybeJSON e f = Inl err"
  then show "import_rejected e f" by (simp add: import_rejected_def)
next
  assume "parseMaybeJSON e f = Inr payload \<and> get_prop payload ''examples'' = None"
  then show "import_rejected e f" by (simp add: import_rejected_def)
next
  assume r: "import_rejected e f"
  from handleImport_rejected[OF r, of s] obtain m where
    m: "handleImport e (Some f) s = s\<lparr>statusMsg := Msg_ImportFailed m\<rparr>" by blast
  show "handleImport e (Some f) s = s\<lparr>statusMsg := statusMsg (handleImport e (Some f) s)\<rparr>"
    by (simp add: m)
  show "examples (handleImport e (Some f) s) = examples s" by (simp add: m)
  show "addHistory (handleImport e (Some f) s) = addHistory s" by (simp add: m)
  show "storage (handleImport e (Some f) s) = storage s" by (simp add: m)
  show "\<exists>m. statusMsg (handleImport e (Some f) s) = Msg_ImportFailed m" by (simp add: m)
next
  assume a: "\<not> import_rejected e f"
  from handleImport_accepted[OF a, of s] obtain p where
    p: "parseMaybeJSON e f = Inr p" "handleImport e (Some f) s = install_payload e p s" by blast
  from a p(1) obtain x where x: "get_prop p ''examples'' = Some x"
    by (auto simp: import_rejected_def split: option.splits)
  have "\<forall>l\<in>set ALL_LABELS.
          examples (handleImport e (Some f) s) l = Some (array_or_empty (get_prop x l))"
    by (simp add: p(2) install_payload_examples x)
  moreover have "addHistory (handleImport e (Some f) s) = array_or_empty (get_prop p ''addHistory'')"
    by (simp add: p(2) install_payload_addHistory)
  moreover have "case setItem_throws e (snapshot_of e (handleImport e (Some f) s)) of
                 None \<Rightarrow>
                   (\<exists>n. statusMsg (handleImport e (Some f) s) = Msg_Imported n)
                   \<and> storage (handleImport e (Some f) s)
                       = Some (snapshot_of e (handleImport e (Some f) s))
               | Some m \<Rightarrow>
                   statusMsg (handleImport e (Some f) s) = import_failed (Err_Builtin m)
                   \<and> storage (handleImport e (Some f) s) = storage s"
  proof (cases "setItem_throws e (snapshot_of e (handleImport e (Some f) s))")
    case None
    then have w: "setItem_throws e (snapshot_of e (install_payload e p s)) = None"
      by (simp add: p(2))
    show ?thesis
      using install_payload_status[OF w] None by (simp add: p(2))
  next
    case (Some m)
    then have w: "setItem_throws e (snapshot_of e (install_payload e p s)) = Some m"
      by (simp add: p(2))
    show ?thesis
      using install_payload_failure[OF w] Some by (simp add: p(2))
  qed
  ultimately show "\<exists>p x. parseMaybeJSON e f = Inr p \<and> get_prop p ''examples'' = Some x
           \<and> (\<forall>l\<in>set ALL_LABELS.
                 examples (handleImport e (Some f) s) l = Some (array_or_empty (get_prop x l)))
           \<and> addHistory (handleImport e (Some f) s) = array_or_empty (get_prop p ''addHistory'')
           \<and> (case setItem_throws e (snapshot_of e (handleImport e (Some f) s)) of
                 None \<Rightarrow>
                   (\<exists>n. statusMsg (handleImport e (Some f) s) = Msg_Imported n)
                   \<and> storage (handleImport e (Some f) s)
                       = Some (snapshot_of e (handleImport e (Some f) s))
               | Some m \<Rightarrow>
                   statusMsg (handleImport e (Some f) s) = import_failed (Err_Builtin m)
                   \<and> storage (handleImport e (Some f) s) = storage s)"
    using p(1) x by blast
qed

theorem handleImport_atomic_witness:
  "import_rejected (demo_host 0) garbled_file
   \<and> examples (handleImport (demo_host 0) (Some garbled_file) demo_state) = examples demo_state
   \<and> addHistory (handleImport (demo_host 0) (Some garbled_file) demo_state) = addHistory demo_state
   \<and> (\<exists>m. statusMsg (handleImport (demo_host 0) (Some garbled_file) demo_state)
            = Msg_ImportFailed m)
   \<and> import_rejected (demo_host 0) no_examples_file
   \<and> examples (handleImport (demo_host 0) (Some no_examples_file) demo_state)
       = examples demo_state
   \<and> \<not> import_rejected (demo_host 0) foo_file
   \<and> addHistory (handleImport (demo_host 0) (Some foo_file) demo_state) = [JStr ''foo'']
   \<and> (\<exists>n. statusMsg (handleImport (demo_host 0) (Some foo_file) demo_state) = Msg_Imported n)
   \<and> \<not> import_rejected (full_host 0) foo_file
   \<and> addHistory (handleImport (full_host 0) (Some foo_file) demo_state) = [JStr ''foo'']
   \<and> statusMsg (handleImport (full_host 0) (Some foo_file) demo_state)
       = Msg_ImportFailed (Err_Builtin ''QuotaExceededError'')
   \<and> storage (handleImport (full_host 0) (Some foo_file) demo_state) = storage demo_state"
proof -
  have h: "array_or_empty (get_prop foo_payload ''addHistory'') = [JStr ''foo'']"
    by (simp add: foo_payload_def)
  have f: "import_failed (Err_Builtin ''QuotaExceededError'')
      = Msg_ImportFailed (Err_Builtin ''QuotaExceededError'')"
    by (simp add: import_failed_def)
  show ?thesis
    using handleImport_atomic [of "demo_host 0" garbled_file _ _ demo_state]
      handleImport_atomic [of "demo_host 0" no_examples_file _ _ demo_state]
      handleImport_atomic [of "demo_host 0" foo_file _ _ demo_state]
      handleImport_atomic [of "full_host 0" foo_file _ _ demo_state]
      garbled_rejected [of 0] no_examples_rejected [of "demo_host 0"]
      foo_accepted [of "demo_host 0"] foo_parse [of "demo_host 0"]
      foo_accepted [of "full_host 0"] foo_parse [of "full_host 0"] h f
    by (auto simp: demo_host_writes full_host_throws)
qed

text \<open>
  C9.  The code faults where the claim says it must not: the import of
  \<open>{"examples": {}, "addHistory": ["foo"]}\<close> is accepted, and the \<open>undoLast\<close> that follows
  pops \<open>"foo"\<close>, finds no \<open>examples["foo"]\<close> and throws a \<open>TypeError\<close> on its \<open>.length\<close>.
\<close>

theorem undoLast_after_import_throws:
  "statusMsg (handleImport (demo_host 0) (Some foo_file) init_state) = Msg_Imported 0
   \<and> addHistory (handleImport (demo_host 0) (Some foo_file) init_state) = [JStr ''foo'']
   \<and> fst (undoLast (demo_host 1) (handleImport (demo_host 0) (Some foo_file) init_state))
       = Inl TypeError"
proof -
  have ex: "examples (install_payload e foo_payload init_state) l
      = (if l \<in> set ALL_LABELS then Some [] else None)" for e l
    by (simp add: install_payload_examples foo_payload_def init_state_def foldl_map_upd)
  have tot: "totalExamples (install_payload e foo_payload init_state) = 0" for e
  proof -
    have "foldl (\<lambda>sum l. sum + (case examples (install_payload e foo_payload init_state) l of
             None \<Rightarrow> 0 | Some arr \<Rightarrow> length arr)) n ls = n" for n ls
      by (induction ls arbitrary: n) (simp_all add: ex)
    then show ?thesis by (simp add: totalExamples_def)
  qed
  have hist: "addHistory (install_payload e foo_payload init_state) = [JStr ''foo'']" for e
    by (simp add: install_payload_addHistory foo_payload_def)
  have nokey: "''foo'' \<notin> set ALL_LABELS"
    by (simp add: ALL_LABELS_def LABELS_def NONE_LABEL_def)
  have st: "statusMsg (install_payload (demo_host 0) foo_payload init_state) = Msg_Imported 0"
    using install_payload_status(1)[OF demo_host_writes, of 0 foo_payload init_state]
    by (simp add: tot)
  show ?thesis
    by (simp add: foo_import st hist undoLast_def Let_def ex nokey)
qed

theorem undoLast_after_import_throws_witness:
  "fst (undoLast (demo_host 1) (handleImport (demo_host 0) (Some foo_file) init_state))
     \<noteq> Inr ()"
  using undoLast_after_import_throws by simp

text \<open>
  C10.  After \<open>clearAll\<close>, and after every \<open>handleImport\<close> that reports success, the
  smoothing window is empty, the last label and confidence are cleared, and record mode
  and its held label are off; the smoothed result is then the empty one, whatever was
  classified before.
\<close>

theorem clear_import_reset:
  "smoothQueue (clearAll s) = [] \<and> lastLabel (clearAll s) = None \<and> lastConf (clearAll s) = 0
   \<and> recordMode (clearAll s) = False \<and> recordLabel (clearAll s) = None
   \<and> getSmoothedLabel (clearAll s) = \<lparr>sm_label = None, sm_conf = 0, sm_stable = False\<rparr>
   \<and> (statusMsg (handleImport e fl s) = Msg_Imported n \<longrightarrow>
        smoothQueue (handleImport e fl s) = [] \<and> lastLabel (handleImport e fl s) = None
        \<and> lastConf (handleImport e fl s) = 0 \<and> recordMode (handleImport e fl s) = False
        \<and> recordLabel (handleImport e fl s) = None
        \<and> getSmoothedLabel (handleImport e fl s)
            = \<lparr>sm_label = None, sm_conf = 0, sm_stable = False\<rparr>)"
proof -
  have c: "smoothQueue (clearAll s) = [] \<and> lastLabel (clearAll s) = None
      \<and> lastConf (clearAll s) = 0 \<and> recordMode (clearAll s) = False
      \<and> recordLabel (clearAll s) = None"
    by (simp add: clearAll_def)
  have i: "smoothQueue (handleImport e fl s) = [] \<and> lastLabel (handleImport e fl s) = None
      \<and> lastConf (handleImport e fl s) = 0 \<and> recordMode (handleImport e fl s) = False
      \<and> recordLabel (handleImport e fl s) = None"
    if "statusMsg (handleImport e fl s) = Msg_Imported n"
    using handleImport_cases[of e fl s] that install_payload_reset[of e _ s n] by auto
  have g: "getSmoothedLabel t = \<lparr>sm_label = None, sm_conf = 0, sm_stable = False\<rparr>"
    if "lastLabel t = None" for t
    using that by (simp add: getSmoothedLabel_def falsy_label_def)
  show ?thesis using c i g by simp
qed

theorem clear_import_reset_witness:
  "smoothQueue (clearAll steady_window_state) = []
   \<and> getSmoothedLabel (clearAll steady_window_state)
       = \<lparr>sm_label = None, sm_conf = 0, sm_stable = False\<rparr>
   \<and> statusMsg (handleImport (demo_host 0) (Some foo_file) steady_window_state) = Msg_Imported 0
   \<and> smoothQueue (handleImport (demo_host 0) (Some foo_file) steady_window_state) = []
   \<and> lastLabel (handleImport (demo_host 0) (Some foo_file) steady_window_state) = None
   \<and> recordMode (handleImport (demo_host 0) (Some foo_file) steady_window_state) = False"
proof -
  have ex: "examples (install_payload e foo_payload s) l
      = (if l \<in> set ALL_LABELS then Some [] else examples s l)" for e l s
    by (simp add: install_payload_examples foo_payload_def)
  have "foldl (\<lambda>sum l. sum + (case examples (install_payload e foo_payload s) l of
           None \<Rightarrow> 0 | Some arr \<Rightarrow> length arr)) n ls = n" if "set ls \<subseteq> set ALL_LABELS"
    for n ls e s
    using that by (induction ls arbitrary: n) (simp_all add: ex)
  then have tot: "totalExamples (install_payload e foo_payload s) = 0" for e s
    by (simp add: totalExamples_def)
  have st: "statusMsg (handleImport (demo_host 0) (Some foo_file) steady_window_state)
      = Msg_Imported 0"
    using install_payload_status(1)[OF demo_host_writes, of 0 foo_payload steady_window_state]
    by (simp add: foo_import tot)
  show ?thesis
    using clear_import_reset [of steady_window_state "demo_host 0" "Some foo_file" 0] st
    by simp
qed

section \<open>The classifier\<close>

lemma foldl_sq_sum:
  "foldl (\<lambda>s i. s + (a ! i - b ! i) * (a ! i - b ! i)) acc [0..<n]
     = acc + (\<Sum>i<n. ((a::real list) ! i - b ! i)\<^sup>2)"
  by (induction n) (simp_all add: power2_eq_square add.assoc)

lemma l2Distance_euclid:
  "length a \<le> length b \<Longrightarrow> l2Distance a b = Some (euclid a b)"
  by (simp add: l2Distance_def euclid_def foldl_sq_sum)

lemma euclid_nonneg: "0 \<le> euclid a b"
  by (simp add: euclid_def sum_nonneg)

lemma distance_ok:
  "is_vector_for feats b \<Longrightarrow> distance feats b = Some (euclid feats (vector_of b))"
  by (auto simp: is_vector_for_def distance_def vector_of_def l2Distance_euclid
      split: option.splits)

lemma those_map_Some: "those (map (\<lambda>x. Some (f x)) xs) = Some (map f xs)"
  by (induction xs) simp_all

lemma those_append:
  "those (xs @ ys) = (case those xs of None \<Rightarrow> None
      | Some a \<Rightarrow> (case those ys of None \<Rightarrow> None | Some b \<Rightarrow> Some (a @ b)))"
  by (induction xs) (simp_all split: option.splits)

lemma neighbors_general:
  assumes "list_all (\<lambda>l. case examples s l of None \<Rightarrow> True
                   | Some arr \<Rightarrow> list_all (is_vector_for feats) arr) ls"
  shows "those (map (\<lambda>n. map_option (Pair (fst n)) (snd n))
           (concat (map (\<lambda>label. (case examples s label of None \<Rightarrow> []
               | Some arr \<Rightarrow> map (\<lambda>b. (label, distance feats b)) arr)) ls)))
       = Some (concat (map (\<lambda>l. (case examples s l of None \<Rightarrow> []
               | Some arr \<Rightarrow> map (\<lambda>b. (l, euclid feats (vector_of b))) arr)) ls))"
  using assms
proof (induction ls)
  case Nil
  then show ?case by simp
next
  case (Cons l ls)
  show ?case
  proof (cases "examples s l")
    case None
    with Cons show ?thesis by simp
  next
    case (Some arr)
    with Cons.prems have ok: "list_all (is_vector_for feats) arr" by simp
    have "map (\<lambda>n. map_option (Pair (fst n)) (snd n)) (map (\<lambda>b. (l, distance feats b)) arr)
        = map (\<lambda>b. Some (l, euclid feats (vector_of b))) arr"
      using ok by (induction arr) (simp_all add: distance_ok)
    then have "those (map (\<lambda>n. map_option (Pair (fst n)) (snd n))
          (map (\<lambda>b. (l, distance feats b)) arr))
        = Some (map (\<lambda>b. (l, euclid feats (vector_of b))) arr)"
      by (simp only: those_map_Some)
    with Cons Some show ?thesis by (simp add: those_append)
  qed
qed

lemma neighbors_ok:
  "dataset_ok s feats \<Longrightarrow>
   those (map (\<lambda>n. map_option (Pair (fst n)) (snd n)) (neighbors_of s feats))
     = Some (spec_neighbors s feats)"
  unfolding dataset_ok_def neighbors_of_def spec_neighbors_def by (rule neighbors_general)

lemma foldl_add_sum_list:
  "foldl (\<lambda>sum l. sum + f l) (n::nat) ls = n + sum_list (map f ls)"
  by (induction ls arbitrary: n) simp_all

lemma length_neighbors_of: "length (neighbors_of s feats) = totalExamples s"
proof -
  have "length (concat (map (\<lambda>label. (case examples s label of None \<Rightarrow> []
               | Some arr \<Rightarrow> map (\<lambda>b. (label, distance feats b)) arr)) ls))
      = sum_list (map (\<lambda>l. case examples s l of None \<Rightarrow> 0 | Some arr \<Rightarrow> length arr) ls)" for ls
    by (induction ls) (simp_all split: option.splits)
  then show ?thesis
    by (simp add: neighbors_of_def totalExamples_def foldl_add_sum_list)
qed

lemma length_spec_neighbors: "length (spec_neighbors s feats) = totalExamples s"
proof -
  have "length (concat (map (\<lambda>l. (case examples s l of None \<Rightarrow> []
               | Some arr \<Rightarrow> map (\<lambda>b. (l, euclid feats (vector_of b))) arr)) ls))
      = sum_list (map (\<lambda>l. case examples s l of None \<Rightarrow> 0 | Some arr \<Rightarrow> length arr) ls)" for ls
    by (induction ls) (simp_all split: option.splits)
  then show ?thesis
    by (simp add: spec_neighbors_def totalExamples_def foldl_add_sum_list)
qed


lemma classifyKNN_ok:
  assumes "dataset_ok s feats" and "0 < totalExamples s"
  shows "classifyKNN s feats = Knn_result (gate (scores_of (topK_of (spec_neighbors s feats))))"
proof -
  have "neighbors_of s feats \<noteq> []"
    using assms(2) length_neighbors_of[of s feats] by auto
  then show ?thesis
    using assms(1) by (simp add: classifyKNN_def Let_def neighbors_ok)
qed



lemma add_score_weight:
  "add_score sc n = AList.update (fst n) (or0 (map_of sc (fst n)) + spec_weight (snd n)) sc"
  by (simp add: add_score_def spec_weight_def EPS_def Let_def)
























lemma map_of_knn_object:
  "map_of (knn_object l c b s sc) ''label'' = Some (RLabel l)"
  "map_of (knn_object l c b s sc) ''conf'' = Some (RNum c)"
  "map_of (knn_object l c b s sc) ''best'' = Some (RLabel b)"
  "map_of (knn_object l c b s sc) ''second'' = Some (RLabel s)"
  "map_of (knn_object l c b s sc) ''scores'' = Some (RScores sc)"
  "map_of (knn_object l c b s sc) ''margin'' = None"
  "map fst (knn_object l c b s sc) = [''label'', ''conf'', ''best'', ''second'', ''scores'']"
  by (simp_all add: knn_object_def)

lemma gate_fields:
  "map_of (gate sc) ''conf'' = Some (RNum (conf_of sc))"
  "map_of (gate sc) ''best'' = Some (RLabel (bestLabel_of sc))"
  "map_of (gate sc) ''second'' = Some (RLabel (secondLabel_of sc))"
  "map_of (gate sc) ''scores'' = Some (RScores sc)"
  "map_of (gate sc) ''margin'' = None"
  "map fst (gate sc) = [''label'', ''conf'', ''best'', ''second'', ''scores'']"
  "map_of (gate sc) ''label''
     = Some (RLabel (if bestLabel_of sc = Some NONE_LABEL \<or> conf_of sc < MIN_CONF
                        \<or> margin_of sc < MIN_MARGIN
                     then Some NONE_LABEL else bestLabel_of sc))"
proof -
  consider (none) "bestLabel_of sc = Some NONE_LABEL"
    | (low) "bestLabel_of sc \<noteq> Some NONE_LABEL"
        "conf_of sc < MIN_CONF \<or> margin_of sc < MIN_MARGIN"
    | (pass) "bestLabel_of sc \<noteq> Some NONE_LABEL"
        "\<not> (conf_of sc < MIN_CONF \<or> margin_of sc < MIN_MARGIN)"
    by blast
  then have g: "gate sc = knn_object
      (if bestLabel_of sc = Some NONE_LABEL \<or> conf_of sc < MIN_CONF \<or> margin_of sc < MIN_MARGIN
       then Some NONE_LABEL else bestLabel_of sc)
      (conf_of sc) (bestLabel_of sc) (secondLabel_of sc) sc"
  proof cases
    case none
    then show ?thesis by (simp add: gate_def Let_def)
  next
    case low
    then show ?thesis by (simp add: gate_def Let_def)
  next
    case pass
    then show ?thesis by (simp add: gate_def Let_def)
  qed
  show "map_of (gate sc) ''conf'' = Some (RNum (conf_of sc))"
    "map_of (gate sc) ''best'' = Some (RLabel (bestLabel_of sc))"
    "map_of (gate sc) ''second'' = Some (RLabel (secondLabel_of sc))"
    "map_of (gate sc) ''scores'' = Some (RScores sc)"
    "map_of (gate sc) ''margin'' = None"
    "map fst (gate sc) = [''label'', ''conf'', ''best'', ''second'', ''scores'']"
    "map_of (gate sc) ''label''
     = Some (RLabel (if bestLabel_of sc = Some NONE_LABEL \<or> conf_of sc < MIN_CONF
                        \<or> margin_of sc < MIN_MARGIN
                     then Some NONE_LABEL else bestLabel_of sc))"
    unfolding g by (rule map_of_knn_object)+
qed












lemma as_vector_vec: "as_vector (vec v) = Some v"
proof -
  have "those (map as_number (map JNum v)) = Some v" by (induction v) simp_all
  then show ?thesis by (simp add: vec_def)
qed

lemma vector_of_vec: "vector_of (vec v) = v"
  by (simp add: vector_of_def as_vector_vec)

lemma is_vector_for_vec: "is_vector_for feats (vec v) = (length feats \<le> length v)"
  by (simp add: is_vector_for_def as_vector_vec)

lemma init_examples: "examples init_state l = (if l \<in> set ALL_LABELS then Some [] else None)"
  by (simp add: init_state_def foldl_map_upd)

lemma two_cluster_neighbors:
  "spec_neighbors (two_cluster_state vA vN) feats
     = replicate 7 (''A'', euclid feats vA) @ replicate 7 (''NONE'', euclid feats vN)"
  by (simp add: spec_neighbors_def two_cluster_state_def init_examples vector_of_vec
      ALL_LABELS_def LABELS_def NONE_LABEL_def)

lemma two_cluster_ok:
  "length feats \<le> length vA \<Longrightarrow> length feats \<le> length vN \<Longrightarrow>
   dataset_ok (two_cluster_state vA vN) feats"
  by (simp add: dataset_ok_def two_cluster_state_def init_examples is_vector_for_vec
      list_all_iff)

lemma two_cluster_total: "totalExamples (two_cluster_state vA vN) = 14"
  using length_spec_neighbors[of "two_cluster_state vA vN" "[]"]
  by (simp add: two_cluster_neighbors)

lemma euclid_self: "euclid a a = 0"
  by (simp add: euclid_def)

lemma scores_of_replicate:
  "foldl add_score [(l, v)] (replicate n (l, d)) = [(l, v + real n * spec_weight d)]"
  by (induction n arbitrary: v) (simp_all add: add_score_weight algebra_simps)

lemma scores_of_replicate_Suc:
  "scores_of (replicate (Suc n) (l, d)) = [(l, real (Suc n) * spec_weight d)]"
proof -
  have "scores_of (replicate (Suc n) (l, d)) = foldl add_score [(l, spec_weight d)] (replicate n (l, d))"
    by (simp add: scores_of_def add_score_weight)
  then show ?thesis by (simp add: scores_of_replicate algebra_simps)
qed

lemma two_cluster_topK:
  "topK_of (spec_neighbors (two_cluster_state vA vN) vA) = replicate 7 (''A'', 0)"
proof -
  let ?ns = "replicate 7 (''A'', 0::real) @ replicate 7 (''NONE'', euclid vA vN)"
  have "sorted (map snd ?ns)"
    by (simp add: sorted_append euclid_nonneg)
  then have "sort_key snd ?ns = ?ns" by (rule sort_key_id_if_sorted)
  then show ?thesis
    by (simp add: topK_of_def Let_def two_cluster_neighbors euclid_self K_def)
qed

lemma gate_single:
  assumes "0 < v" and "l \<noteq> NONE_LABEL"
  shows "gate [(l, v)] = knn_object (Some l) 1 (Some l) None [(l, v)]"
    and "margin_of [(l, v)] = 1"
proof -
  have bs: "best_second [(l, v)] = (Some (l, v), None)"
    by (simp add: best_second_def best_step_def)
  have c: "conf_of [(l, v)] = 1" using assms(1)
    by (simp add: conf_of_def bs total_of_def)
  show m: "margin_of [(l, v)] = 1"
    by (simp add: margin_of_def c secondConf_of_def secondScore_of_def bs)
  show "gate [(l, v)] = knn_object (Some l) 1 (Some l) None [(l, v)]"
    using assms(2)
    by (simp add: gate_def Let_def c m bestLabel_of_def secondLabel_of_def bs MIN_CONF_def
        MIN_MARGIN_def)
qed

lemma two_cluster_result:
  assumes "length vA \<le> length vN"
  shows "classifyKNN (two_cluster_state vA vN) vA
       = Knn_result (knn_object (Some ''A'') 1 (Some ''A'') None [(''A'', 7000000)])"
proof -
  have ok: "dataset_ok (two_cluster_state vA vN) vA"
    using assms by (simp add: two_cluster_ok)
  have sc: "scores_of (replicate 7 (''A'', 0)) = [(''A'', 7000000)]"
    using scores_of_replicate_Suc[of 6 "''A''" 0] by (simp add: spec_weight_def)
  have g: "gate [(''A'', 7000000)] = knn_object (Some ''A'') 1 (Some ''A'') None [(''A'', 7000000)]"
    by (rule gate_single) (simp_all add: NONE_LABEL_def)
  show ?thesis
    using classifyKNN_ok[OF ok] by (simp add: two_cluster_total two_cluster_topK sc g)
qed










lemma classifyKNN_result_gate:
  assumes "classifyKNN s feats = Knn_result r"
  shows "\<exists>neighbors. r = gate (scores_of (topK_of neighbors))"
  using assms by (auto simp: classifyKNN_def Let_def split: if_splits option.splits)

lemma two_cluster_sample:
  "length origin42 \<le> length (unit42 3)"
  "dataset_ok (two_cluster_state origin42 (unit42 3)) origin42"
  "0 < totalExamples (two_cluster_state origin42 (unit42 3))"
  by (simp_all add: two_cluster_ok two_cluster_total origin42_def unit42_def)



text \<open>
  C5, as the source has it.  Every result object has exactly the properties \<open>label\<close>,
  \<open>conf\<close>, \<open>best\<close>, \<open>second\<close> and \<open>scores\<close>: the confidence, the raw best and second labels
  and the per-label scores, whatever the gated label is; the margin is used by the gate
  and is not a property of the result.  On seven copies of \<open>vA\<close> under A and seven of a
  vector \<open>vN\<close> under NONE, the query \<open>vA\<close> yields label A with confidence 1, and the margin
  the gate computes is 1.
\<close>

theorem classifyKNN_result_fields:
  "(classifyKNN s feats = Knn_result r \<longrightarrow>
      map fst r = [''label'', ''conf'', ''best'', ''second'', ''scores'']
      \<and> (\<exists>sc. map_of r ''scores'' = Some (RScores sc)
            \<and> map_of r ''conf'' = Some (RNum (conf_of sc))
            \<and> map_of r ''best'' = Some (RLabel (bestLabel_of sc))
            \<and> map_of r ''second'' = Some (RLabel (secondLabel_of sc))))
   \<and> (length vA \<le> length vN \<longrightarrow>
        classifyKNN (two_cluster_state vA vN) vA
          = Knn_result (knn_object (Some ''A'') 1 (Some ''A'') None [(''A'', 7000000)])
        \<and> margin_of [(''A'', 7000000)] = 1)"
proof (intro conjI impI)
  assume a: "classifyKNN s feats = Knn_result r"
  from classifyKNN_result_gate[OF a] obtain ns where r: "r = gate (scores_of (topK_of ns))"
    by blast
  show "map fst r = [''label'', ''conf'', ''best'', ''second'', ''scores'']"
    unfolding r by (rule gate_fields)
  show "\<exists>sc. map_of r ''scores'' = Some (RScores sc)
            \<and> map_of r ''conf'' = Some (RNum (conf_of sc))
            \<and> map_of r ''best'' = Some (RLabel (bestLabel_of sc))
            \<and> map_of r ''second'' = Some (RLabel (secondLabel_of sc))"
    unfolding r by (intro exI[of _ "scores_of (topK_of ns)"]) (simp add: gate_fields)
next
  assume "length vA \<le> length vN"
  then show "classifyKNN (two_cluster_state vA vN) vA
          = Knn_result (knn_object (Some ''A'') 1 (Some ''A'') None [(''A'', 7000000)])"
    by (rule two_cluster_result)
next
  show "margin_of [(''A'', 7000000)] = 1"
    by (rule gate_single) (simp_all add: NONE_LABEL_def)
qed

theorem classifyKNN_result_fields_witness:
  "length origin42 \<le> length (unit42 3)
   \<and> classifyKNN (two_cluster_state origin42 (unit42 3)) origin42
       = Knn_result (knn_object (Some ''A'') 1 (Some ''A'') None [(''A'', 7000000)])
   \<and> map fst (knn_object (Some ''A'') 1 (Some ''A'') None [(''A'', 7000000)])
       = [''label'', ''conf'', ''best'', ''second'', ''scores'']
   \<and> margin_of [(''A'', 7000000)] = 1"
  using classifyKNN_result_fields [of "two_cluster_state origin42 (unit42 3)" origin42
      "knn_object (Some ''A'') 1 (Some ''A'') None [(''A'', 7000000)]" origin42 "unit42 3"]
    two_cluster_sample(1)
  by simp

text \<open>
  C5 as stated fails: the result of the two-cluster query has no property \<open>margin\<close>.
\<close>

theorem classifyKNN_result_fields_counterexample:
  "classifyKNN (two_cluster_state origin42 (unit42 3)) origin42
     = Knn_result (knn_object (Some ''A'') 1 (Some ''A'') None [(''A'', 7000000)])
   \<and> map_of (knn_object (Some ''A'') 1 (Some ''A'') None [(''A'', 7000000)]) ''margin'' = None"
  using two_cluster_result [OF two_cluster_sample(1)] by (simp add: map_of_knn_object)




section \<open>Arithmetic on doubles\<close>

lemma overflow_gt: "2 ^ 1023 < OVERFLOW"
proof -
  have "(2::real) ^ 970 < 2 ^ 1023" by (rule power_strict_increasing) simp_all
  moreover have "(2::real) ^ 1024 = 2 * 2 ^ 1023" by simp
  ultimately show ?thesis unfolding OVERFLOW_def by linarith
qed

lemma pow_below_overflow: "n \<le> 1023 \<Longrightarrow> (2::real) ^ n < OVERFLOW"
proof -
  assume "n \<le> 1023"
  then have "(2::real) ^ n \<le> 2 ^ 1023" by (intro power_increasing) simp_all
  with overflow_gt show ?thesis by linarith
qed

lemma rounding_near: "rounding_ok rnd \<Longrightarrow> \<bar>rnd x - x\<bar> \<le> \<bar>x\<bar>"
  unfolding rounding_ok_def by blast

lemma rounding_normal:
  "rounding_ok rnd \<Longrightarrow> 1 / 2 ^ 1022 \<le> \<bar>x\<bar> \<Longrightarrow> \<bar>rnd x - x\<bar> \<le> \<bar>x\<bar> / 2"
  unfolding rounding_ok_def by blast

lemma rounding_tiny: "rounding_ok rnd \<Longrightarrow> rnd x \<noteq> 0 \<Longrightarrow> 1 / 2 ^ 1074 \<le> \<bar>rnd x\<bar>"
  unfolding rounding_ok_def by blast

lemma rounding_zero: "rounding_ok rnd \<Longrightarrow> rnd 0 = 0"
  using rounding_near[of rnd 0] by simp

lemma rounding_abs: "rounding_ok rnd \<Longrightarrow> \<bar>rnd x\<bar> \<le> 2 * \<bar>x\<bar>"
proof -
  assume "rounding_ok rnd"
  then have "\<bar>rnd x - x\<bar> \<le> \<bar>x\<bar>" by (rule rounding_near)
  then show ?thesis by linarith
qed

lemma rounding_nonneg: "rounding_ok rnd \<Longrightarrow> 0 \<le> x \<Longrightarrow> 0 \<le> rnd x"
proof -
  assume "rounding_ok rnd" "0 \<le> x"
  then have "\<bar>rnd x - x\<bar> \<le> \<bar>x\<bar>" by (intro rounding_near)
  with \<open>0 \<le> x\<close> show ?thesis by linarith
qed

lemma rounding_half:
  assumes "rounding_ok rnd" and "1 / 2 ^ 1022 \<le> x"
  shows "x / 2 \<le> rnd x"
proof -
  have "0 < x" using assms(2) by (smt (verit) zero_less_divide_1_iff zero_less_numeral zero_less_power)
  then have "1 / 2 ^ 1022 \<le> \<bar>x\<bar>" using assms(2) by simp
  with assms(1) have "\<bar>rnd x - x\<bar> \<le> \<bar>x\<bar> / 2" by (rule rounding_normal)
  with \<open>0 < x\<close> show ?thesis by linarith
qed


lemma bounded_mono: "bounded_by m a \<Longrightarrow> m \<le> n \<Longrightarrow> bounded_by n a"
  by (simp add: bounded_by_def)

lemma bounded_finite: "bounded_by m a \<Longrightarrow> isFinite a"
  by (simp add: bounded_by_def)

lemma finite_cases:
  assumes "isFinite a"
  obtains r where "a = Fin r" | "a = NZero"
  using assms by (cases a) simp_all

lemma round_to_cases:
  "round_to e x z = signed_inf (x < 0) \<and> OVERFLOW \<le> \<bar>x\<bar>
   \<or> round_to e x z = signed_zero (if x = 0 then z else x < 0) \<and> fround e x = 0 \<and> \<bar>x\<bar> < OVERFLOW
   \<or> round_to e x z = Fin (fround e x) \<and> fround e x \<noteq> 0 \<and> \<bar>x\<bar> < OVERFLOW"
  by (simp add: round_to_def round_with_def)

lemma round_to_not_nan: "round_to e x z \<noteq> NaN"
  by (simp add: round_to_def round_with_def signed_inf_def signed_zero_def)

lemma round_to_bounded:
  assumes "rounding_ok (fround e)" and "\<bar>x\<bar> \<le> 2 ^ n" and "n \<le> 1023"
  shows "bounded_by (2 ^ Suc n) (round_to e x z)"
proof -
  have lt: "\<bar>x\<bar> < OVERFLOW" using assms(2) pow_below_overflow[OF assms(3)] by linarith
  have "\<bar>fround e x\<bar> \<le> 2 * 2 ^ n" using rounding_abs[OF assms(1), of x] assms(2) by linarith
  then show ?thesis using lt
    by (simp add: round_to_def round_with_def bounded_by_def signed_zero_def)
qed

lemma val_fneg: "val (fneg a) = - val a"
  by (cases a) simp_all

lemma finite_fneg: "isFinite (fneg a) = isFinite a"
  by (cases a) simp_all

lemma fneg_bounded: "bounded_by m a \<Longrightarrow> bounded_by m (fneg a)"
  by (simp add: bounded_by_def val_fneg finite_fneg)

lemma finite_simps:
  "isFinite a \<Longrightarrow> a \<noteq> NaN" "isFinite a \<Longrightarrow> a \<noteq> PInf" "isFinite a \<Longrightarrow> a \<noteq> NInf"
  "isFinite a \<Longrightarrow> \<not> is_inf a"
  by (auto simp: is_inf_def)

lemma fadd_finite:
  "isFinite a \<Longrightarrow> isFinite b \<Longrightarrow> fadd e a b = round_to e (val a + val b) (negative a \<and> negative b)"
  by (auto simp: fadd_def dest: finite_simps)

lemma fmul_finite:
  "isFinite a \<Longrightarrow> isFinite b \<Longrightarrow> fmul e a b = round_to e (val a * val b) (negative a \<noteq> negative b)"
  by (auto simp: fmul_def dest: finite_simps)

lemma fdiv_finite:
  "isFinite a \<Longrightarrow> isFinite b \<Longrightarrow> val b \<noteq> 0 \<Longrightarrow>
   fdiv e a b = round_to e (val a / val b) (negative a \<noteq> negative b)"
  by (auto simp: fdiv_def is_zero_def dest: finite_simps)

lemma fadd_bounded:
  assumes r: "rounding_ok (fround e)" and a: "bounded_by (2 ^ n) a" and b: "bounded_by (2 ^ n) b"
    and n: "n \<le> 1021"
  shows "bounded_by (2 ^ (n + 2)) (fadd e a b)"
proof -
  have "\<bar>val a\<bar> \<le> 2 ^ n" "\<bar>val b\<bar> \<le> 2 ^ n" using a b by (simp_all add: bounded_by_def)
  then have "\<bar>val a + val b\<bar> \<le> 2 ^ Suc n" by simp
  from round_to_bounded[OF r this] n have "bounded_by (2 ^ Suc (Suc n)) (round_to e (val a + val b) (negative a \<and> negative b))"
    by simp
  then show ?thesis using a b by (simp add: fadd_finite bounded_by_def)
qed

lemma fsub_bounded:
  assumes r: "rounding_ok (fround e)" and a: "bounded_by (2 ^ n) a" and b: "bounded_by (2 ^ n) b"
    and n: "n \<le> 1021"
  shows "bounded_by (2 ^ (n + 2)) (fsub e a b)"
  unfolding fsub_def by (rule fadd_bounded[OF r a fneg_bounded[OF b] n])

lemma fmul_bounded:
  assumes r: "rounding_ok (fround e)" and a: "bounded_by (2 ^ m) a" and b: "bounded_by (2 ^ n) b"
    and n: "m + n \<le> 1023"
  shows "bounded_by (2 ^ (m + n + 1)) (fmul e a b)"
proof -
  have "\<bar>val a * val b\<bar> \<le> 2 ^ m * 2 ^ n"
    using a b unfolding abs_mult bounded_by_def by (intro mult_mono) simp_all
  then have "\<bar>val a * val b\<bar> \<le> 2 ^ (m + n)" by (simp add: power_add)
  from round_to_bounded[OF r this n] show ?thesis using a b by (simp add: fmul_finite bounded_by_def)
qed

lemma fdiv_bounded:
  assumes r: "rounding_ok (fround e)" and a: "bounded_by (2 ^ m) a" and b: "isFinite b"
    and lb: "1 / 2 ^ n \<le> \<bar>val b\<bar>" and n: "m + n \<le> 1023"
  shows "bounded_by (2 ^ (m + n + 1)) (fdiv e a b)"
proof -
  have pos: "0 < \<bar>val b\<bar>"
    using lb by (smt (verit) zero_less_divide_1_iff zero_less_numeral zero_less_power)
  then have nz: "val b \<noteq> 0" by simp
  have "1 / \<bar>val b\<bar> \<le> 2 ^ n"
    using lb pos by (simp add: field_simps)
  then have "\<bar>val a\<bar> * (1 / \<bar>val b\<bar>) \<le> 2 ^ m * 2 ^ n"
    using a pos unfolding bounded_by_def by (intro mult_mono) simp_all
  then have "\<bar>val a / val b\<bar> \<le> 2 ^ (m + n)" by (simp add: power_add abs_divide)
  from round_to_bounded[OF r this n] show ?thesis
    using a b nz by (simp add: fdiv_finite bounded_by_def)
qed

lemma nearest_even_close: "\<bar>of_int (nearest_even y) - y\<bar> \<le> 1 / 2"
proof -
  have "of_int \<lfloor>y\<rfloor> \<le> y" "y < of_int \<lfloor>y\<rfloor> + 1" by linarith+
  then show ?thesis by (auto simp: nearest_even_def Let_def)
qed

lemma nearest_even_small: "\<bar>y\<bar> < 1 / 2 \<Longrightarrow> nearest_even y = 0"
proof -
  assume a: "\<bar>y\<bar> < 1 / 2"
  show ?thesis
  proof (cases "0 \<le> y")
    case True
    then have "\<lfloor>y\<rfloor> = 0" using a by (intro floor_unique) simp_all
    then show ?thesis using a True by (simp add: nearest_even_def)
  next
    case False
    then have "\<lfloor>y\<rfloor> = - 1" using a by (intro floor_unique) simp_all
    then show ?thesis using a False by (simp add: nearest_even_def)
  qed
qed

lemma ulp_pos: "0 < ulp x"
  by (simp add: ulp_def)

lemma ulp_min: "1 / 2 ^ 1074 \<le> ulp x"
proof -
  have "(2::real) powr (- 1074) \<le> ulp x"
    unfolding ulp_def by (rule powr_mono) simp_all
  moreover have "(2::real) powr (- 1074) = 1 / 2 ^ 1074"
    by (simp add: powr_minus_divide powr_realpow[symmetric])
  ultimately show ?thesis by simp
qed

lemma ulp_normal:
  assumes "1 / 2 ^ 1022 \<le> \<bar>x\<bar>"
  shows "ulp x \<le> \<bar>x\<bar> / 2 ^ 52"
proof -
  have pos: "0 < \<bar>x\<bar>"
    using assms by (smt (verit) zero_less_divide_1_iff zero_less_numeral zero_less_power)
  have "(2::real) powr (- 1022) = 1 / 2 ^ 1022"
    by (simp add: powr_minus_divide powr_realpow[symmetric])
  then have "2 powr (- 1022) \<le> \<bar>x\<bar>" using assms by simp
  then have "- 1022 \<le> log 2 \<bar>x\<bar>" using pos by (simp add: le_log_iff)
  then have "- 1022 \<le> \<lfloor>log 2 \<bar>x\<bar>\<rfloor>" by (simp add: le_floor_iff)
  then have m: "max \<lfloor>log 2 \<bar>x\<bar>\<rfloor> (- 1022) = \<lfloor>log 2 \<bar>x\<bar>\<rfloor>" by simp
  have "2 powr (real_of_int \<lfloor>log 2 \<bar>x\<bar>\<rfloor>) \<le> 2 powr (log 2 \<bar>x\<bar>)"
    by (rule powr_mono) simp_all
  also have "\<dots> = \<bar>x\<bar>" using pos by simp
  finally have le: "2 powr (real_of_int \<lfloor>log 2 \<bar>x\<bar>\<rfloor>) \<le> \<bar>x\<bar>" .
  have "ulp x = 2 powr (real_of_int \<lfloor>log 2 \<bar>x\<bar>\<rfloor>) / 2 powr 52"
    unfolding ulp_def m by (simp add: powr_diff)
  also have "\<dots> = 2 powr (real_of_int \<lfloor>log 2 \<bar>x\<bar>\<rfloor>) / 2 ^ 52"
    by (simp add: powr_realpow[symmetric])
  also have "\<dots> \<le> \<bar>x\<bar> / 2 ^ 52"
    using le by (simp add: divide_right_mono)
  finally show ?thesis .
qed

lemma ieee_round_error: "\<bar>ieee_round x - x\<bar> \<le> ulp x / 2"
proof (cases "x = 0")
  case True
  then show ?thesis using ulp_pos[of x] by (simp add: ieee_round_def)
next
  case False
  have "ieee_round x - x = (of_int (nearest_even (x / ulp x)) - x / ulp x) * ulp x"
    using False ulp_pos[of x] by (simp add: ieee_round_def algebra_simps)
  then have "\<bar>ieee_round x - x\<bar> = \<bar>of_int (nearest_even (x / ulp x)) - x / ulp x\<bar> * ulp x"
    using ulp_pos[of x] by (simp add: abs_mult)
  also have "\<dots> \<le> (1 / 2) * ulp x"
    using nearest_even_close[of "x / ulp x"] ulp_pos[of x] by (intro mult_right_mono) simp_all
  finally show ?thesis by simp
qed

lemma ieee_round_near: "\<bar>ieee_round x - x\<bar> \<le> \<bar>x\<bar>"
proof (cases "\<bar>x / ulp x\<bar> < 1 / 2")
  case True
  then have "nearest_even (x / ulp x) = 0" by (rule nearest_even_small)
  then show ?thesis by (simp add: ieee_round_def)
next
  case False
  then have "ulp x / 2 \<le> \<bar>x\<bar>" using ulp_pos[of x] by (simp add: field_simps abs_divide)
  with ieee_round_error[of x] show ?thesis by linarith
qed

lemma ieee_round_normal:
  assumes "1 / 2 ^ 1022 \<le> \<bar>x\<bar>"
  shows "\<bar>ieee_round x - x\<bar> \<le> \<bar>x\<bar> / 2"
proof -
  have "(1::real) \<le> 2 ^ 52" by (rule one_le_power) simp
  then have "\<bar>x\<bar> / 2 ^ 52 \<le> \<bar>x\<bar> / 1" by (intro divide_left_mono) simp_all
  then have "\<bar>x\<bar> / 2 ^ 52 \<le> \<bar>x\<bar>" by (simp only: div_by_1)
  then have "ulp x / 2 \<le> \<bar>x\<bar> / 2" using ulp_normal[OF assms] by linarith
  with ieee_round_error[of x] show ?thesis by linarith
qed

lemma ieee_round_tiny:
  assumes "ieee_round x \<noteq> 0"
  shows "1 / 2 ^ 1074 \<le> \<bar>ieee_round x\<bar>"
proof -
  from assms have x: "x \<noteq> 0" and n: "nearest_even (x / ulp x) \<noteq> 0"
    by (auto simp: ieee_round_def split: if_splits)
  then have "1 \<le> \<bar>real_of_int (nearest_even (x / ulp x))\<bar>" by linarith
  then have "1 * ulp x \<le> \<bar>real_of_int (nearest_even (x / ulp x))\<bar> * ulp x"
    using ulp_pos[of x] by (intro mult_right_mono) simp_all
  then have "ulp x \<le> \<bar>ieee_round x\<bar>"
    using x ulp_pos[of x] by (simp add: ieee_round_def abs_mult)
  with ulp_min[of x] show ?thesis by linarith
qed

lemma ieee_round_ok: "rounding_ok ieee_round"
  unfolding rounding_ok_def
  using ieee_round_near ieee_round_normal ieee_round_tiny by blast

lemma round_with_to: "round_with (fround e) x z = round_to e x z"
  by (simp add: round_to_def)

lemma sample_host: "fround (demo_host t) = ieee_round" "Math_cos (demo_host t) = sample_cos"
  "Math_sin (demo_host t) = sample_sin" "Math_atan2 (demo_host t) = sample_atan2"
  by (simp_all add: demo_host_def)

lemma demo_rounding_ok: "rounding_ok (fround (demo_host t))"
  by (simp add: sample_host ieee_round_ok)

lemma round_ieee: "round_with ieee_round x z = round_to (demo_host 0) x z"
  by (simp add: round_to_def sample_host)

lemma round_ieee_bounded:
  "\<bar>x\<bar> \<le> 2 ^ n \<Longrightarrow> n \<le> 1023 \<Longrightarrow> bounded_by (2 ^ Suc n) (round_with ieee_round x z)"
  unfolding round_ieee by (rule round_to_bounded[OF demo_rounding_ok])

lemma atan2_bound: "\<bar>atan2 y x\<bar> \<le> pi"
proof -
  have b: "- (pi / 2) < arctan (y / x)" "arctan (y / x) < pi / 2"
    by (rule arctan_lbound arctan_ubound)+
  have neg: "arctan (y / x) \<le> 0" if "x < 0" "0 \<le> y"
    using that by (simp add: arctan_le_zero_iff divide_nonneg_neg)
  have pos: "0 \<le> arctan (y / x)" if "x < 0" "y < 0"
    using that by (simp add: zero_le_arctan_iff divide_nonpos_neg)
  show ?thesis
    using b neg pos pi_gt_zero unfolding atan2_def by (auto simp: abs_if)
qed

lemma pi_le_4: "\<bar>pi\<bar> \<le> 2 ^ 2" "\<bar>- pi\<bar> \<le> 2 ^ 2"
  using pi_less_4 pi_gt_zero by simp_all

lemma signed_zero_bounded: "0 \<le> m \<Longrightarrow> bounded_by m (signed_zero z)"
  by (simp add: bounded_by_def signed_zero_def)

lemma sample_cos_bounded: "isFinite x \<Longrightarrow> bounded_by 2 (sample_cos x)"
  using round_ieee_bounded[of "cos (val x)" 0 False] by (simp add: sample_cos_def)

lemma sample_sin_bounded: "isFinite x \<Longrightarrow> bounded_by 2 (sample_sin x)"
  using round_ieee_bounded[of "sin (val x)" 0 "negative x"] by (simp add: sample_sin_def)

lemma sample_atan2_bounded:
  assumes "isFinite y" and "isFinite x"
  shows "bounded_by 8 (sample_atan2 y x)"
proof -
  have a: "bounded_by 8 (round_with ieee_round (atan2 (val y) (val x)) z)" for z
  proof -
    have "\<bar>atan2 (val y) (val x)\<bar> \<le> 2 ^ 2"
      using atan2_bound[of "val y" "val x"] pi_less_4 by simp
    from round_ieee_bounded[OF this] show ?thesis by simp
  qed
  have p: "bounded_by 8 (round_with ieee_round pi z)"
    "bounded_by 8 (round_with ieee_round (- pi) z)" for z
    using round_ieee_bounded[OF pi_le_4(1), of z] round_ieee_bounded[OF pi_le_4(2), of z]
    by simp_all
  show ?thesis
    using assms a p
    by (auto simp: sample_atan2_def signed_zero_bounded dest: finite_simps)
qed

lemma demo_trig_ok: "trig_ok (demo_host t)"
  by (simp add: trig_ok_def sample_host sample_atan2_bounded sample_cos_bounded
      sample_sin_bounded)

section \<open>Feature extraction on doubles\<close>

lemma feats_loop_concat_d:
  "foldl (feats_push_d e lm wx wy sc c sn) acc ns =
     acc @ concat (map (feats_push_d e lm wx wy sc c sn []) ns)"
  by (induction ns arbitrary: acc) (simp_all add: feats_push_d_def Let_def)

lemma hand_scale_spec:
  "hand_scale_d e (fsub e (px (kps ! 9)) (px (kps ! 0))) (fsub e (py (kps ! 9)) (py (kps ! 0)))
     = spec_scale_d e kps"
  by (simp add: hand_scale_d_def spec_scale_d_def Let_def falsy_num_def)

lemma getHandFeatures_d_21:
  assumes "length kps = 21"
  shows "getHandFeatures_d e (\<lparr>dkeypoints = Some kps\<rparr> # rest) = Some (extract_spec_d e kps)"
proof -
  define lm where "lm = getLandmarks21_d kps"
  define wx where "wx = px (kps ! 0)"
  define wy where "wy = py (kps ! 0)"
  define sc where "sc = spec_scale_d e kps"
  define c where "c = Math_cos e (spec_rotation_d e kps)"
  define sn where "sn = Math_sin e (spec_rotation_d e kps)"
  define pair where
    "pair = (\<lambda>k::dkeypoint.
       [fsub e (fmul e (fdiv e (fsub e (px k) wx) sc) c) (fmul e (fdiv e (fsub e (py k) wy) sc) sn),
        fadd e (fmul e (fdiv e (fsub e (px k) wx) sc) sn) (fmul e (fdiv e (fsub e (py k) wy) sc) c)])"
  have nth_lm:
    "lm ! i = (px (kps ! i), py (kps ! i), (case pz (kps ! i) of None \<Rightarrow> Fin 0 | Some z \<Rightarrow> z))"
    if "i < 21" for i
    using that assms by (simp add: lm_def getLandmarks21_d_def)
  have step: "feats_push_d e lm wx wy sc c sn [] i = pair (kps ! i)" if "i < 21" for i
    using nth_lm[OF that] by (simp add: feats_push_d_def Let_def pair_def)
  have "map (feats_push_d e lm wx wy sc c sn []) [0..<21] = map (\<lambda>i. pair (kps ! i)) [0..<21]"
    by (rule map_cong) (simp_all add: step)
  also have "\<dots> = map pair (map (nth kps) [0..<length kps])"
    using assms by simp
  also have "\<dots> = map pair kps"
    by (simp only: map_nth)
  finally have loop:
    "foldl (feats_push_d e lm wx wy sc c sn) [] [0..<21] = concat (map pair kps)"
    by (simp only: feats_loop_concat_d append_Nil)
  have l0: "fst (lm ! 0) = wx" "fst (snd (lm ! 0)) = wy"
    using nth_lm[of 0] by (simp_all add: wx_def wy_def)
  have l9: "fst (lm ! 9) = px (kps ! 9)" "fst (snd (lm ! 9)) = py (kps ! 9)"
    using nth_lm[of 9] by simp_all
  have hs: "hand_scale_d e (fsub e (px (kps ! 9)) wx) (fsub e (py (kps ! 9)) wy) = sc"
    unfolding wx_def wy_def sc_def by (rule hand_scale_spec)
  have rt: "fsub e (fdiv e (fneg (Math_PI e)) (Fin 2))
       (Math_atan2 e (fsub e (py (kps ! 9)) wy) (fsub e (px (kps ! 9)) wx))
     = spec_rotation_d e kps"
    by (simp add: spec_rotation_d_def Let_def wx_def wy_def)
  have src: "getHandFeatures_d e (\<lparr>dkeypoints = Some kps\<rparr> # rest)
      = Some (foldl (feats_push_d e lm wx wy sc c sn) [] [0..<21])"
    using assms
    by (simp add: getHandFeatures_d_def Let_def lm_def[symmetric] l0 l9 hs rt c_def sn_def
        del: upt_Suc)
  have spec: "extract_spec_d e kps = concat (map pair kps)"
    unfolding extract_spec_d_def Let_def pair_def sc_def c_def sn_def wx_def wy_def ..
  show ?thesis by (simp only: src loop spec)
qed

lemma getHandFeatures_d_not_21:
  "length kps \<noteq> 21 \<Longrightarrow> getHandFeatures_d e (\<lparr>dkeypoints = Some kps\<rparr> # rest) = None"
  by (simp add: getHandFeatures_d_def)

lemma length_concat_pairs_d: "length (concat (map (\<lambda>k. [f k, g k]) xs)) = 2 * length xs"
  by (induction xs) simp_all

lemma length_extract_spec_d: "length (extract_spec_d e kps) = 2 * length kps"
  by (simp add: extract_spec_d_def Let_def length_concat_pairs_d)

text \<open>Numbers that are not negative.\<close>

lemma nonneg_cases:
  assumes "nonneg a"
  obtains r where "a = Fin r" "0 \<le> r" | "a = PInf"
  using assms by (cases a) simp_all

lemma nonneg_not_nan: "nonneg a \<Longrightarrow> a \<noteq> NaN"
  by (cases a) simp_all

lemma round_to_nonneg:
  assumes "rounding_ok (fround e)" and "0 \<le> x"
  shows "nonneg (round_to e x False)"
  using rounding_nonneg[OF assms] assms(2)
  by (simp add: round_to_def round_with_def signed_inf_def signed_zero_def)

lemma fadd_nonneg:
  assumes "rounding_ok (fround e)" and "nonneg a" and "nonneg b"
  shows "nonneg (fadd e a b)"
proof -
  have "nonneg (fadd e (Fin r) (Fin q))" if "0 \<le> r" "0 \<le> q" for r q
    using round_to_nonneg[OF assms(1), of "r + q"] that by (simp add: fadd_def)
  then show ?thesis
    using assms(2,3) by (auto elim!: nonneg_cases simp: fadd_def)
qed

lemma fmul_self_nonneg:
  assumes "rounding_ok (fround e)" and "d \<noteq> NaN"
  shows "nonneg (fmul e d d)"
proof (cases "is_inf d")
  case True
  then show ?thesis using assms(2) by (auto simp: fmul_def is_inf_def is_zero_def signed_inf_def)
next
  case False
  then show ?thesis
    using assms(2) round_to_nonneg[OF assms(1), of "val d * val d"]
    by (simp add: fmul_def)
qed

lemma fsqrt_nonneg:
  assumes "rounding_ok (fround e)" and "nonneg a"
  shows "nonneg (fsqrt e a)"
  using assms(2) round_to_nonneg[OF assms(1), of "sqrt r" for r]
  by (auto elim!: nonneg_cases)

lemma fsub_not_nan: "isFinite a \<Longrightarrow> isFinite b \<Longrightarrow> fsub e a b \<noteq> NaN"
  by (simp add: fsub_def fadd_finite finite_fneg round_to_not_nan)

lemma nonneg_finite: "nonneg a \<Longrightarrow> isFinite a \<Longrightarrow> \<exists>r\<ge>0. a = Fin r"
  by (cases a) simp_all

text \<open>The scale is finite and not below \<open>2^-538\<close>.\<close>

lemma round_to_tiny:
  assumes "rounding_ok (fround e)" and "isFinite (round_to e x z)" and "val (round_to e x z) \<noteq> 0"
  shows "1 / 2 ^ 1074 \<le> \<bar>val (round_to e x z)\<bar>"
proof -
  have "round_to e x z = Fin (fround e x) \<and> fround e x \<noteq> 0"
    using assms(2,3) round_to_cases[of e x z]
    by (auto simp: signed_inf_def signed_zero_def split: if_splits)
  then show ?thesis using rounding_tiny[OF assms(1), of x] by simp
qed

lemma sqrt_le_pow: "0 \<le> s \<Longrightarrow> s \<le> 2 ^ n \<Longrightarrow> sqrt s \<le> 2 ^ n"
proof -
  assume a: "0 \<le> s" "s \<le> 2 ^ n"
  have one: "(1::real) \<le> 2 ^ n" by (rule one_le_power) simp
  show ?thesis
  proof (cases "s \<le> 1")
    case True
    then have "sqrt s \<le> 1" using a by simp
    with one show ?thesis by linarith
  next
    case False
    then have "sqrt s \<le> s" using real_sqrt_le_iff[of s "s * s"]
      by (smt (verit) a(1) mult_le_cancel_left1 real_sqrt_abs2)
    with a show ?thesis by linarith
  qed
qed

lemma scale_props:
  assumes r: "rounding_ok (fround e)"
    and a: "bounded_by (2 ^ 402) dx" and b: "bounded_by (2 ^ 402) dy"
  shows "isFinite (hand_scale_d e dx dy) \<and> 1 / 2 ^ 538 \<le> \<bar>val (hand_scale_d e dx dy)\<bar>"
proof -
  define sum where "sum = fadd e (fmul e dx dx) (fmul e dy dy)"
  have fa: "isFinite dx" and fb: "isFinite dy" using a b by (simp_all add: bounded_by_def)
  have sq: "bounded_by (2 ^ 805) (fmul e dx dx)" "bounded_by (2 ^ 805) (fmul e dy dy)"
    using fmul_bounded[OF r a a] fmul_bounded[OF r b b] by simp_all
  have sb: "bounded_by (2 ^ 807) sum"
    using fadd_bounded[OF r sq] by (simp add: sum_def)
  have "nonneg sum"
    unfolding sum_def using fa fb
    by (intro fadd_nonneg[OF r] fmul_self_nonneg[OF r]) (auto dest: finite_simps)
  with sb obtain s where s: "sum = Fin s" "0 \<le> s" "s \<le> 2 ^ 807"
    using nonneg_finite[of sum] by (auto simp: bounded_by_def)
  have d: "fsqrt e sum = round_to e (sqrt s) False" using s by simp
  have "\<bar>sqrt s\<bar> \<le> 2 ^ 807" using sqrt_le_pow[OF s(2,3)] s(2) by simp
  from round_to_bounded[OF r this] have df: "isFinite (round_to e (sqrt s) False)"
    by (simp add: bounded_by_def)
  show ?thesis
  proof (cases "falsy_num (fsqrt e sum)")
    case True
    then have "hand_scale_d e dx dy = Fin 1"
      by (simp add: hand_scale_d_def Let_def sum_def)
    moreover have "(1::real) / 2 ^ 538 \<le> 1" by simp
    ultimately show ?thesis by simp
  next
    case False
    then have h: "hand_scale_d e dx dy = round_to e (sqrt s) False"
      by (simp add: hand_scale_d_def Let_def sum_def[symmetric] d)
    from False have nz: "round_to e (sqrt s) False \<noteq> Fin 0" "round_to e (sqrt s) False \<noteq> NZero"
      by (simp_all add: d falsy_num_def is_zero_def)
    have q: "round_to e (sqrt s) False = Fin (fround e (sqrt s))" "fround e (sqrt s) \<noteq> 0"
      using df nz round_to_cases[of e "sqrt s" False]
      by (auto simp: signed_inf_def signed_zero_def split: if_splits)
    have "s \<noteq> 0" using q(2) rounding_zero[OF r] by auto
    then have vs: "val sum \<noteq> 0" using s by simp
    have "isFinite sum" using s by simp
    from this vs have "1 / 2 ^ 1074 \<le> \<bar>val sum\<bar>"
      unfolding sum_def fadd_finite[OF bounded_finite[OF sq(1)] bounded_finite[OF sq(2)]]
      by (rule round_to_tiny[OF r])
    then have tiny: "1 / 2 ^ 1074 \<le> s" using s by simp
    have "((1::real) / 2 ^ 537)\<^sup>2 = 1 / 2 ^ 1074"
      by (simp add: power_divide flip: power_mult)
    then have "1 / 2 ^ 537 \<le> sqrt s" using tiny by (intro real_le_rsqrt) simp
    moreover have "(1::real) / 2 ^ 1022 \<le> 1 / 2 ^ 537"
      by (intro divide_left_mono power_increasing) simp_all
    ultimately have "1 / 2 ^ 1022 \<le> sqrt s" by (rule order_trans[rotated])
    then have half: "sqrt s / 2 \<le> fround e (sqrt s)" by (rule rounding_half[OF r])
    have "(1 / 2 ^ 537) / 2 \<le> sqrt s / 2"
      using \<open>1 / 2 ^ 537 \<le> sqrt s\<close> by (rule divide_right_mono) simp
    moreover have "(1::real) / 2 ^ 538 = (1 / 2 ^ 537) / 2" by simp
    ultimately have "1 / 2 ^ 538 \<le> sqrt s / 2" by (simp only:)
    from this half have "1 / 2 ^ 538 \<le> fround e (sqrt s)" by (rule order_trans)
    then show ?thesis by (simp add: h q(1))
  qed
qed

lemma rotation_finite:
  assumes r: "rounding_ok (fround e)" and t: "trig_ok e"
    and a: "isFinite dx" and b: "isFinite dy"
  shows "isFinite (fsub e (fdiv e (fneg (Math_PI e)) (Fin 2)) (Math_atan2 e dy dx))"
proof -
  have "\<bar>pi\<bar> \<le> 2 ^ 2" using pi_less_4 pi_gt_zero by simp
  from round_to_bounded[OF r this] have "bounded_by (2 ^ 3) (Math_PI e)"
    by (simp add: Math_PI_def)
  then have "bounded_by (2 ^ 3) (fneg (Math_PI e))" by (rule fneg_bounded)
  from fdiv_bounded[OF r this, of "Fin 2" 0]
  have h: "bounded_by (2 ^ 4) (fdiv e (fneg (Math_PI e)) (Fin 2))" by simp
  have "bounded_by 8 (Math_atan2 e dy dx)" using t a b by (simp add: trig_ok_def)
  then have "bounded_by (2 ^ 4) (Math_atan2 e dy dx)" by (rule bounded_mono) simp
  from fsub_bounded[OF r h this] show ?thesis by (simp add: bounded_by_def)
qed

lemma pair_finite:
  assumes r: "rounding_ok (fround e)"
    and a: "bounded_by (2 ^ 400) a" and w: "bounded_by (2 ^ 400) w"
    and b: "bounded_by (2 ^ 400) b" and v: "bounded_by (2 ^ 400) v"
    and sc: "isFinite sc" "1 / 2 ^ 538 \<le> \<bar>val sc\<bar>"
    and c: "bounded_by 2 c" and s: "bounded_by 2 s"
  shows "isFinite (fsub e (fmul e (fdiv e (fsub e a w) sc) c) (fmul e (fdiv e (fsub e b v) sc) s))"
    and "isFinite (fadd e (fmul e (fdiv e (fsub e a w) sc) s) (fmul e (fdiv e (fsub e b v) sc) c))"
proof -
  have c1: "bounded_by (2 ^ 1) c" and s1: "bounded_by (2 ^ 1) s" using c s by simp_all
  have x: "bounded_by (2 ^ 941) (fdiv e (fsub e a w) sc)"
    using fdiv_bounded[OF r fsub_bounded[OF r a w] sc] by simp
  have y: "bounded_by (2 ^ 941) (fdiv e (fsub e b v) sc)"
    using fdiv_bounded[OF r fsub_bounded[OF r b v] sc] by simp
  have xc: "bounded_by (2 ^ 943) (fmul e (fdiv e (fsub e a w) sc) c)"
    using fmul_bounded[OF r x c1] by simp
  have xs: "bounded_by (2 ^ 943) (fmul e (fdiv e (fsub e a w) sc) s)"
    using fmul_bounded[OF r x s1] by simp
  have yc: "bounded_by (2 ^ 943) (fmul e (fdiv e (fsub e b v) sc) c)"
    using fmul_bounded[OF r y c1] by simp
  have ys: "bounded_by (2 ^ 943) (fmul e (fdiv e (fsub e b v) sc) s)"
    using fmul_bounded[OF r y s1] by simp
  show "isFinite (fsub e (fmul e (fdiv e (fsub e a w) sc) c) (fmul e (fdiv e (fsub e b v) sc) s))"
    using fsub_bounded[OF r xc ys] by (simp add: bounded_by_def)
  show "isFinite (fadd e (fmul e (fdiv e (fsub e a w) sc) s) (fmul e (fdiv e (fsub e b v) sc) c))"
    using fadd_bounded[OF r xs yc] by (simp add: bounded_by_def)
qed

lemma extract_spec_d_finite:
  assumes r: "rounding_ok (fround e)" and t: "trig_ok e" and len: "length kps = 21"
    and bd: "list_all (\<lambda>k. bounded_by (2 ^ 400) (px k) \<and> bounded_by (2 ^ 400) (py k)) kps"
  shows "list_all isFinite (extract_spec_d e kps)"
proof -
  have el: "bounded_by (2 ^ 400) (px k) \<and> bounded_by (2 ^ 400) (py k)" if "k \<in> set kps" for k
    using bd that by (simp add: list_all_iff)
  have k0: "kps ! 0 \<in> set kps" and k9: "kps ! 9 \<in> set kps" using len by simp_all
  define dx where "dx = fsub e (px (kps ! 9)) (px (kps ! 0))"
  define dy where "dy = fsub e (py (kps ! 9)) (py (kps ! 0))"
  have dxb: "bounded_by (2 ^ 402) dx" and dyb: "bounded_by (2 ^ 402) dy"
    using fsub_bounded[OF r, of 400] el[OF k0] el[OF k9] by (simp_all add: dx_def dy_def)
  have sc: "isFinite (spec_scale_d e kps)" "1 / 2 ^ 538 \<le> \<bar>val (spec_scale_d e kps)\<bar>"
    using scale_props[OF r dxb dyb] unfolding dx_def dy_def hand_scale_spec by simp_all
  have "isFinite (spec_rotation_d e kps)"
    using rotation_finite[OF r t bounded_finite[OF dxb] bounded_finite[OF dyb]]
    by (simp add: spec_rotation_d_def Let_def dx_def dy_def)
  then have cs: "bounded_by 2 (Math_cos e (spec_rotation_d e kps))"
    "bounded_by 2 (Math_sin e (spec_rotation_d e kps))"
    using t by (simp_all add: trig_ok_def)
  show ?thesis
    unfolding extract_spec_d_def Let_def list_all_iff
    using pair_finite[OF r _ _ _ _ sc cs] el el[OF k0] by auto
qed

lemma degenerate_scale:
  assumes r: "rounding_ok (fround e)"
    and f: "isFinite (px (kps ! 0))" "isFinite (py (kps ! 0))"
      "isFinite (px (kps ! 9))" "isFinite (py (kps ! 9))"
    and eq: "val (px (kps ! 9)) = val (px (kps ! 0))" "val (py (kps ! 9)) = val (py (kps ! 0))"
  shows "spec_scale_d e kps = Fin 1"
proof -
  have z: "round_to e 0 b = signed_zero b" for b
    using rounding_zero[OF r] pow_below_overflow[of 0]
    by (simp add: round_to_def round_with_def)
  have d: "is_zero (fsub e a b)" if "isFinite a" "isFinite b" "val a = val b" for a b
    using that by (simp add: fsub_def fadd_finite finite_fneg val_fneg z is_zero_def signed_zero_def)
  have m: "fmul e a a = Fin 0" if "is_zero a" for a
    using that by (auto simp: is_zero_def fmul_def is_inf_def z signed_zero_def)
  have "fadd e (Fin 0) (Fin 0) = Fin 0" by (simp add: fadd_def z signed_zero_def)
  moreover have "fsqrt e (Fin 0) = Fin 0" by (simp add: z signed_zero_def)
  ultimately show ?thesis
    using m[OF d[OF f(3) f(1) eq(1)]] m[OF d[OF f(4) f(2) eq(2)]]
    by (simp add: spec_scale_d_def Let_def is_zero_def)
qed

text \<open>
  C4.  In double arithmetic, for every rounding and library functions as described above:
  for a first hand with exactly 21 keypoints whose coordinates are finite and of magnitude
  at most \<open>2^400\<close>, \<open>getHandFeatures\<close> returns 42 finite values, the wrist-translated,
  scale-divided, rotated x,y pairs in landmark order; the scale is 1 when the wrist and
  the reference joint coincide.  For a first hand with another number of keypoints, or
  with none, and for no hand at all, it returns nothing.
\<close>

theorem getHandFeatures_d_extract:
  assumes "rounding_ok (fround e)" and "trig_ok e"
  shows "(length kps = 21
          \<and> list_all (\<lambda>k. bounded_by (2 ^ 400) (px k) \<and> bounded_by (2 ^ 400) (py k)) kps \<longrightarrow>
      getHandFeatures_d e (\<lparr>dkeypoints = Some kps\<rparr> # rest) = Some (extract_spec_d e kps)
      \<and> length (extract_spec_d e kps) = 42
      \<and> list_all isFinite (extract_spec_d e kps)
      \<and> (val (px (kps ! 9)) = val (px (kps ! 0)) \<and> val (py (kps ! 9)) = val (py (kps ! 0)) \<longrightarrow>
           spec_scale_d e kps = Fin 1))
   \<and> (length kps \<noteq> 21 \<longrightarrow> getHandFeatures_d e (\<lparr>dkeypoints = Some kps\<rparr> # rest) = None)
   \<and> getHandFeatures_d e (\<lparr>dkeypoints = None\<rparr> # rest) = None
   \<and> getHandFeatures_d e [] = None"
proof (intro conjI impI)
  assume a: "length kps = 21
      \<and> list_all (\<lambda>k. bounded_by (2 ^ 400) (px k) \<and> bounded_by (2 ^ 400) (py k)) kps"
  then have len: "length kps = 21"
    and bd: "list_all (\<lambda>k. bounded_by (2 ^ 400) (px k) \<and> bounded_by (2 ^ 400) (py k)) kps"
    by simp_all
  show "getHandFeatures_d e (\<lparr>dkeypoints = Some kps\<rparr> # rest) = Some (extract_spec_d e kps)"
    using len by (rule getHandFeatures_d_21)
  show "length (extract_spec_d e kps) = 42"
    using len by (simp add: length_extract_spec_d)
  show "list_all isFinite (extract_spec_d e kps)"
    by (rule extract_spec_d_finite[OF assms len bd])
  assume eq: "val (px (kps ! 9)) = val (px (kps ! 0)) \<and> val (py (kps ! 9)) = val (py (kps ! 0))"
  have "kps ! 0 \<in> set kps" "kps ! 9 \<in> set kps" using len by simp_all
  then have "isFinite (px (kps ! 0))" "isFinite (py (kps ! 0))"
      "isFinite (px (kps ! 9))" "isFinite (py (kps ! 9))"
    using bd by (simp_all add: list_all_iff bounded_by_def)
  then show "spec_scale_d e kps = Fin 1"
    using eq by (intro degenerate_scale[OF assms(1)]) simp_all
next
  assume "length kps \<noteq> 21"
  then show "getHandFeatures_d e (\<lparr>dkeypoints = Some kps\<rparr> # rest) = None"
    by (rule getHandFeatures_d_not_21)
next
  show "getHandFeatures_d e (\<lparr>dkeypoints = None\<rparr> # rest) = None"
    by (simp add: getHandFeatures_d_def)
  show "getHandFeatures_d e [] = None"
    by (simp add: getHandFeatures_d_def)
qed

lemma fan_kps_sample:
  "length fan_kps = 21"
  "list_all (\<lambda>k. bounded_by (2 ^ 400) (px k) \<and> bounded_by (2 ^ 400) (py k)) fan_kps"
  "length (tl fan_kps) \<noteq> 21"
proof -
  have "(43::real) \<le> 2 ^ 400" by simp
  then have "real i \<le> 2 ^ 400 \<and> 2 * real i + 1 \<le> 2 ^ 400" if "i < 21" for i
    using that by (intro conjI; linarith)
  then show "list_all (\<lambda>k. bounded_by (2 ^ 400) (px k) \<and> bounded_by (2 ^ 400) (py k)) fan_kps"
    by (simp add: fan_kps_def list_all_iff bounded_by_def del: upt_Suc)
qed (simp_all add: fan_kps_def)

lemma flat_kps_sample:
  "length flat_kps = 21"
  "list_all (\<lambda>k. bounded_by (2 ^ 400) (px k) \<and> bounded_by (2 ^ 400) (py k)) flat_kps"
  "val (px (flat_kps ! 9)) = val (px (flat_kps ! 0))"
  "val (py (flat_kps ! 9)) = val (py (flat_kps ! 0))"
  by (simp_all add: flat_kps_def list_all_iff bounded_by_def)

theorem getHandFeatures_d_extract_witness:
  "rounding_ok (fround (demo_host 0)) \<and> trig_ok (demo_host 0)
   \<and> length fan_kps = 21
   \<and> list_all (\<lambda>k. bounded_by (2 ^ 400) (px k) \<and> bounded_by (2 ^ 400) (py k)) fan_kps
   \<and> getHandFeatures_d (demo_host 0) [\<lparr>dkeypoints = Some fan_kps\<rparr>]
       = Some (extract_spec_d (demo_host 0) fan_kps)
   \<and> length (extract_spec_d (demo_host 0) fan_kps) = 42
   \<and> list_all isFinite (extract_spec_d (demo_host 0) fan_kps)
   \<and> length flat_kps = 21
   \<and> spec_scale_d (demo_host 0) flat_kps = Fin 1
   \<and> length (tl fan_kps) \<noteq> 21
   \<and> getHandFeatures_d (demo_host 0) [\<lparr>dkeypoints = Some (tl fan_kps)\<rparr>] = None"
  using getHandFeatures_d_extract [of "demo_host 0" fan_kps "[]", OF demo_rounding_ok demo_trig_ok]
    getHandFeatures_d_extract [of "demo_host 0" flat_kps "[]", OF demo_rounding_ok demo_trig_ok]
    getHandFeatures_d_extract [of "demo_host 0" "tl fan_kps" "[]", OF demo_rounding_ok demo_trig_ok]
    fan_kps_sample flat_kps_sample demo_rounding_ok [of 0] demo_trig_ok [of 0]
  by blast

lemma nth_concat_pairs:
  "i < length xs \<Longrightarrow> concat (map (\<lambda>k. [f k, g k]) xs) ! (2 * i) = f (xs ! i)"
proof (induction xs arbitrary: i)
  case Nil
  then show ?case by simp
next
  case (Cons x xs)
  then show ?case by (cases i) simp_all
qed

lemma big_facts: "OVERFLOW \<le> BIG + BIG" "BIG \<noteq> 0" "0 < BIG"
  by (simp_all add: OVERFLOW_def BIG_def)

lemma overflow_kps_sample:
  "length overflow_kps = 21"
  "overflow_kps ! 0 = \<lparr>px = Fin (- BIG), py = Fin 0, pz = None\<rparr>"
  "overflow_kps ! 9 = \<lparr>px = Fin BIG, py = Fin 0, pz = None\<rparr>"
  "list_all (\<lambda>k. isFinite (px k) \<and> isFinite (py k)) overflow_kps"
proof -
  have "set overflow_kps \<subseteq> {\<lparr>px = Fin BIG, py = Fin 0, pz = None\<rparr>,
      \<lparr>px = Fin (- BIG), py = Fin 0, pz = None\<rparr>}"
    unfolding overflow_kps_def
    by (rule order_trans[OF set_update_subset_insert]) simp
  then show "list_all (\<lambda>k. isFinite (px k) \<and> isFinite (py k)) overflow_kps"
    by (auto simp: list_all_iff)
qed (simp_all add: overflow_kps_def)

lemma big_difference: "fsub e (Fin BIG) (Fin (- BIG)) = PInf"
  using big_facts by (simp add: fsub_def fadd_def round_to_def round_with_def signed_inf_def)

lemma overflow_scale: "spec_scale_d (demo_host 0) overflow_kps = PInf"
proof -
  have z: "round_to (demo_host 0) 0 b = signed_zero b" for b
    using pow_below_overflow[of 0]
    by (simp add: round_to_def round_with_def sample_host ieee_round_def)
  have dy: "fsub (demo_host 0) (Fin 0) (Fin 0) = Fin 0"
    by (simp add: fsub_def fadd_def z signed_zero_def)
  have sq: "fmul (demo_host 0) (Fin 0) (Fin 0) = Fin 0"
    by (simp add: fmul_def is_inf_def z signed_zero_def)
  have "fmul (demo_host 0) PInf PInf = PInf"
    by (simp add: fmul_def is_inf_def is_zero_def signed_inf_def)
  moreover have "fadd (demo_host 0) PInf (Fin 0) = PInf" by (simp add: fadd_def)
  ultimately show ?thesis
    by (simp add: spec_scale_d_def Let_def overflow_kps_sample big_difference dy sq is_zero_def)
qed

lemma extract_nth_even:
  "i < length kps \<Longrightarrow>
   extract_spec_d e kps ! (2 * i) =
     fsub e (fmul e (fdiv e (fsub e (px (kps ! i)) (px (kps ! 0))) (spec_scale_d e kps))
                    (Math_cos e (spec_rotation_d e kps)))
            (fmul e (fdiv e (fsub e (py (kps ! i)) (py (kps ! 0))) (spec_scale_d e kps))
                    (Math_sin e (spec_rotation_d e kps)))"
  unfolding extract_spec_d_def Let_def by (rule nth_concat_pairs)

text \<open>
  The features of a hand whose 21 keypoints have finite coordinates are not all finite:
  with the wrist at \<open>x = -BIG\<close> and the reference joint at \<open>x = BIG\<close> the difference \<open>dx\<close>
  is \<open>Infinity\<close>, so is the scale, and the x offset of the reference joint divided by the
  scale is NaN.
\<close>

theorem getHandFeatures_d_extract_counterexample:
  "length overflow_kps = 21
   \<and> list_all (\<lambda>k. isFinite (px k) \<and> isFinite (py k)) overflow_kps
   \<and> (\<exists>feats. getHandFeatures_d (demo_host 0) [\<lparr>dkeypoints = Some overflow_kps\<rparr>] = Some feats
        \<and> feats ! 18 = NaN \<and> \<not> list_all isFinite feats)"
proof -
  have nan: "fdiv e PInf PInf = NaN" "fmul e NaN c = NaN" "fsub e NaN c = NaN" for e c
    by (simp_all add: fdiv_def fmul_def fsub_def fadd_def is_inf_def)
  have "9 < length overflow_kps" by (simp add: overflow_kps_sample)
  from extract_nth_even[OF this, of "demo_host 0"]
  have n: "extract_spec_d (demo_host 0) overflow_kps ! (2 * 9) = NaN"
    by (simp only: overflow_kps_sample dkeypoint.simps overflow_scale big_difference nan)
  then have n18: "extract_spec_d (demo_host 0) overflow_kps ! 18 = NaN" by simp
  have "18 < length (extract_spec_d (demo_host 0) overflow_kps)"
    by (simp add: length_extract_spec_d overflow_kps_sample)
  then have "extract_spec_d (demo_host 0) overflow_kps ! 18
      \<in> set (extract_spec_d (demo_host 0) overflow_kps)"
    by (rule nth_mem)
  then have "NaN \<in> set (extract_spec_d (demo_host 0) overflow_kps)"
    by (simp only: n18)
  then have "\<not> list_all isFinite (extract_spec_d (demo_host 0) overflow_kps)"
    unfolding list_all_iff using isFinite.simps(5) by blast
  then show ?thesis
    using getHandFeatures_d_21[OF overflow_kps_sample(1), of "demo_host 0" "[]"] n18
      overflow_kps_sample
    by simp
qed


end
